theory Spec2Isabelle
  imports Main "HOL-Library.Sublist"
begin

section \<open>Data model of \<^verbatim>\<open>lib/workers/repository/process/lookup/filter.ts\<close>\<close>

text \<open>
  A \<^verbatim>\<open>Release\<close> is used by the filter through two fields only: the required
  \<^verbatim>\<open>version\<close> string and the optional \<^verbatim>\<open>isDeprecated\<close> flag (\<open>None\<close> is
  JavaScript's \<^verbatim>\<open>undefined\<close>).
\<close>

record Release =
  version :: string
  isDeprecated :: "bool option"

text \<open>The interface \<^verbatim>\<open>FilterConfig\<close> (lines 11-19); a field marked \<^verbatim>\<open>?\<close> is optional.\<close>

record FilterConfig =
  allowedVersions :: "string option"
  depName :: "string option"
  followTag :: "string option"
  ignoreDeprecated :: "bool option"
  ignoreUnstable :: "bool option"
  respectLatest :: "bool option"
  versioning :: string

text \<open>
  A JavaScript number as the getters of a scheme return it: a whole number, or
  \<^verbatim>\<open>NaN\<close> (what a scheme returns when it converts a part that is not numeric).
\<close>

datatype number = Number int | NaN

text \<open>
  The versioning scheme object returned by \<^verbatim>\<open>allVersioning.get\<close>. Only the methods
  that the filter calls are listed, and they are taken to return. The boolean methods are
  read through JavaScript truthiness by the filter, so they are modelled by their truth
  value; \<^verbatim>\<open>getMajor\<close>, \<^verbatim>\<open>getMinor\<close> and \<^verbatim>\<open>getPatch\<close> return a number or
  \<^verbatim>\<open>null\<close> (\<open>None\<close>), and the filter compares them with \<^verbatim>\<open>===\<close>.
\<close>

record VersioningApi =
  isGreaterThan :: "string \<Rightarrow> string \<Rightarrow> bool"
  isStable :: "string \<Rightarrow> bool"
  isValid :: "string \<Rightarrow> bool"
  matches :: "string \<Rightarrow> string \<Rightarrow> bool"
  getMajor :: "string \<Rightarrow> number option"
  getMinor :: "string \<Rightarrow> number option"
  getPatch :: "string \<Rightarrow> number option"

text \<open>A compiled regular expression is used through its \<^verbatim>\<open>test\<close> method only.\<close>

record RegExp =
  test :: "string \<Rightarrow> bool"

text \<open>
  The imports of lines 1-9 whose code is not part of \<^verbatim>\<open>filter.ts\<close> are parameters of
  the model. The scheme lookup \<^verbatim>\<open>allVersioning.get\<close> and the regular expression
  compiler \<^verbatim>\<open>regEx\<close> may throw; what they throw is a value of the type \<open>'x\<close>.
  \<^verbatim>\<open>semver.validRange\<close> returns the normalised range or \<^verbatim>\<open>null\<close>;
  \<^verbatim>\<open>semver.coerce\<close> returns a parsed version (type \<open>'sv\<close>) or \<^verbatim>\<open>null\<close>.
  The calls of \<^verbatim>\<open>logger.debug\<close> (lines 62, 100, 111) write diagnostics only: they
  change neither the returned list nor the thrown error and are left out.
\<close>

record ('x, 'sv) Imports =
  allVersioning_get :: "string \<Rightarrow> 'x + VersioningApi"
  regEx :: "string \<Rightarrow> 'x + RegExp"
  npmVersioning_id :: string
  poetryVersioning_id :: string
  semver_validRange :: "string \<Rightarrow> string option"
  semver_coerce :: "string \<Rightarrow> 'sv option"
  semver_satisfies :: "'sv option \<Rightarrow> string \<Rightarrow> bool"
  pep440_isValid :: "string \<Rightarrow> bool"
  pep440_matches :: "string \<Rightarrow> string \<Rightarrow> bool"
  CONFIG_VALIDATION :: string

text \<open>
  An \<^verbatim>\<open>Error\<close> object with the properties that lines 119-124 set; a property that was
  not set is \<open>None\<close>. A call of \<^verbatim>\<open>filterVersions\<close> can throw an exception of an
  imported function, the \<^verbatim>\<open>TypeError\<close> of reading a property of \<^verbatim>\<open>undefined\<close>
  (line 61), or the error of line 125.
\<close>

record ErrorObject =
  message :: string
  configFile :: "string option"
  validationError :: "string option"
  validationMessage :: "string option"

datatype 'x thrown = Propagated 'x | TypeError | Thrown ErrorObject

text \<open>
  The module-level object \<^verbatim>\<open>regexes\<close> (line 21) maps an \<^verbatim>\<open>allowedVersions\<close>
  text to its compiled expression. It outlives the call, so it is passed in and returned.
\<close>

type_synonym regexes = "string \<rightharpoonup> RegExp"

section \<open>JavaScript primitives used by the filter\<close>

text \<open>Truthiness of an optional string and of an optional boolean.\<close>

definition truthy_string :: "string option \<Rightarrow> bool" where
  "truthy_string s = (case s of None \<Rightarrow> False | Some t \<Rightarrow> t \<noteq> [])"

definition truthy_bool :: "bool option \<Rightarrow> bool" where
  "truthy_bool b = (case b of None \<Rightarrow> False | Some t \<Rightarrow> t)"

text \<open>
  Strict equality \<^verbatim>\<open>===\<close> of two values that are a number or \<^verbatim>\<open>null\<close>:
  \<^verbatim>\<open>null\<close> equals \<^verbatim>\<open>null\<close>, a number equals the same number, and \<^verbatim>\<open>NaN\<close>
  equals nothing, not even \<^verbatim>\<open>NaN\<close>.
\<close>

fun strictEquals :: "number option \<Rightarrow> number option \<Rightarrow> bool" where
  "strictEquals None None = True"
| "strictEquals (Some (Number x)) (Some (Number y)) = (x = y)"
| "strictEquals a b = False"

definition startsWith :: "string \<Rightarrow> string \<Rightarrow> bool" where
  "startsWith s p = (take (length p) s = p)"

definition endsWith :: "string \<Rightarrow> string \<Rightarrow> bool" where
  "endsWith s p = (length p \<le> length s \<and> drop (length s - length p) s = p)"

text \<open>\<^verbatim>\<open>String.prototype.slice(start, end)\<close>: a negative index counts from the end.\<close>

definition slice :: "string \<Rightarrow> int \<Rightarrow> int \<Rightarrow> string" where
  "slice s start end =
     (let len = int (length s);
          from = (if start < 0 then max (len + start) 0 else min start len);
          to = (if end < 0 then max (len + end) 0 else min end len)
      in take (nat (to - from)) (drop (nat from) s))"

text \<open>
  \<^verbatim>\<open>JSON.stringify\<close> of a string: the text between double quotes, where the double
  quote, the backslash and the control characters are escaped.
\<close>

definition hexDigit :: "nat \<Rightarrow> char" where
  "hexDigit n = ''0123456789abcdef'' ! (n mod 16)"

definition quoteChar :: "char \<Rightarrow> string" where
  "quoteChar c =
     (if c = CHR 0x08 then [CHR 0x5C, CHR ''b'']
      else if c = CHR 0x09 then [CHR 0x5C, CHR ''t'']
      else if c = CHR 0x0A then [CHR 0x5C, CHR ''n'']
      else if c = CHR 0x0C then [CHR 0x5C, CHR ''f'']
      else if c = CHR 0x0D then [CHR 0x5C, CHR ''r'']
      else if c = CHR 0x22 then [CHR 0x5C, CHR 0x22]
      else if c = CHR 0x5C then [CHR 0x5C, CHR 0x5C]
      else if (of_char c :: nat) < 32 then
        [CHR 0x5C, CHR ''u'', CHR ''0'', CHR ''0'',
         hexDigit (of_char c div 16), hexDigit (of_char c)]
      else [c])"

definition JSON_stringify :: "string \<Rightarrow> string" where
  "JSON_stringify s = CHR 0x22 # concat (map quoteChar s) @ [CHR 0x22]"

section \<open>\<^verbatim>\<open>filterVersions\<close> (lines 23-167)\<close>

text \<open>The local function \<^verbatim>\<open>isVersionStable\<close> (lines 36-41).\<close>

definition isVersionStable :: "VersioningApi \<Rightarrow> string \<Rightarrow> bool" where
  "isVersionStable V v = (if \<not> isStable V v then False else True)"

text \<open>Lines 48-50: leave only versions greater than the current one.\<close>

definition greaterThanCurrent :: "VersioningApi \<Rightarrow> string \<Rightarrow> Release list \<Rightarrow> Release list" where
  "greaterThanCurrent V fromVersion versions =
     filter (\<lambda>v. isGreaterThan V (version v) fromVersion) versions"

text \<open>
  Lines 57-68: the callback looks the candidate's version up in \<^verbatim>\<open>versions\<close> and
  reads \<^verbatim>\<open>isDeprecated\<close> of what \<^verbatim>\<open>find\<close> returned; on \<^verbatim>\<open>undefined\<close> that read
  throws.
\<close>

fun dropDeprecated :: "Release list \<Rightarrow> Release list \<Rightarrow> 'x thrown + Release list" where
  "dropDeprecated versions [] = Inr []"
| "dropDeprecated versions (v # vs) =
     (case find (\<lambda>release. version release = version v) versions of
        None \<Rightarrow> Inl TypeError
      | Some versionRelease \<Rightarrow>
          (case dropDeprecated versions vs of
             Inl e \<Rightarrow> Inl e
           | Inr kept \<Rightarrow>
               Inr (if truthy_bool (isDeprecated versionRelease) then kept else v # kept)))"

text \<open>Lines 52-69: do not upgrade from non-deprecated to deprecated.\<close>

definition deprecationGuard ::
  "FilterConfig \<Rightarrow> string \<Rightarrow> Release list \<Rightarrow> Release list \<Rightarrow> 'x thrown + Release list" where
  "deprecationGuard config fromVersion versions filteredVersions =
     (let fromRelease = find (\<lambda>release. version release = fromVersion) versions in
      if truthy_bool (ignoreDeprecated config) then
        (case fromRelease of
           None \<Rightarrow> Inr filteredVersions
         | Some r \<Rightarrow>
             if \<not> truthy_bool (isDeprecated r) then dropDeprecated versions filteredVersions
             else Inr filteredVersions)
      else Inr filteredVersions)"

text \<open>
  Lines 77-78 and 87-88:
  \<^verbatim>\<open>regexes[allowedVersions] = regexes[allowedVersions] || regEx(pattern)\<close>.
\<close>

definition cachedRegEx ::
  "('x, 'sv) Imports \<Rightarrow> regexes \<Rightarrow> string \<Rightarrow> string \<Rightarrow> ('x thrown + RegExp) \<times> regexes" where
  "cachedRegEx I rx key pattern =
     (case rx key of
        Some r \<Rightarrow> (Inr r, rx)
      | None \<Rightarrow>
          (case regEx I pattern of
             Inl x \<Rightarrow> (Inl (Propagated x), rx)
           | Inr r \<Rightarrow> (Inr r, rx(key \<mapsto> r))))"

text \<open>Lines 119-124.\<close>

definition invalidAllowedVersions :: "('x, 'sv) Imports \<Rightarrow> string \<Rightarrow> ErrorObject" where
  "invalidAllowedVersions I a =
     \<lparr> message = CONFIG_VALIDATION I,
       configFile = Some ''config'',
       validationError = Some ''Invalid `allowedVersions`'',
       validationMessage =
         Some (''The following allowedVersions does not parse as a valid version or range: ''
                 @ JSON_stringify a) \<rparr>"

text \<open>Lines 72-126: the chain of strategies for a truthy \<^verbatim>\<open>allowedVersions\<close>.\<close>

definition applyAllowedVersions ::
  "('x, 'sv) Imports \<Rightarrow> VersioningApi \<Rightarrow> FilterConfig \<Rightarrow> regexes \<Rightarrow> string \<Rightarrow> Release list
     \<Rightarrow> ('x thrown + Release list) \<times> regexes" where
  "applyAllowedVersions I V config rx a filteredVersions =
     (if length a > 1 \<and> startsWith a ''/'' \<and> endsWith a ''/'' then
        (case cachedRegEx I rx a (slice a 1 (- 1)) of
           (Inl e, rx') \<Rightarrow> (Inl e, rx')
         | (Inr r, rx') \<Rightarrow> (Inr (filter (\<lambda>v. test r (version v)) filteredVersions), rx'))
      else if length a > 2 \<and> startsWith a ''!/'' \<and> endsWith a ''/'' then
        (case cachedRegEx I rx a (slice a 2 (- 1)) of
           (Inl e, rx') \<Rightarrow> (Inl e, rx')
         | (Inr r, rx') \<Rightarrow> (Inr (filter (\<lambda>v. \<not> test r (version v)) filteredVersions), rx'))
      else if isValid V a then
        (Inr (filter (\<lambda>v. matches V (version v) a) filteredVersions), rx)
      else if versioning config \<noteq> npmVersioning_id I \<and> truthy_string (semver_validRange I a) then
        (Inr (filter (\<lambda>v. semver_satisfies I (semver_coerce I (version v)) a) filteredVersions), rx)
      else if versioning config = poetryVersioning_id I \<and> pep440_isValid I a then
        (Inr (filter (\<lambda>v. pep440_matches I (version v) a) filteredVersions), rx)
      else (Inl (Thrown (invalidAllowedVersions I a)), rx))"

text \<open>Lines 71-127: the chain runs only when \<^verbatim>\<open>allowedVersions\<close> is truthy.\<close>

definition allowedVersionsFilter ::
  "('x, 'sv) Imports \<Rightarrow> VersioningApi \<Rightarrow> FilterConfig \<Rightarrow> regexes \<Rightarrow> Release list
     \<Rightarrow> ('x thrown + Release list) \<times> regexes" where
  "allowedVersionsFilter I V config rx filteredVersions =
     (case allowedVersions config of
        None \<Rightarrow> (Inr filteredVersions, rx)
      | Some a \<Rightarrow>
          if a = [] then (Inr filteredVersions, rx)
          else applyAllowedVersions I V config rx a filteredVersions)"

text \<open>Lines 149-166: filter the latest.\<close>

definition filterLatest ::
  "VersioningApi \<Rightarrow> FilterConfig \<Rightarrow> string \<Rightarrow> string option \<Rightarrow> Release list \<Rightarrow> Release list" where
  "filterLatest V config fromVersion latestVersion filteredVersions =
     (case latestVersion of
        None \<Rightarrow> filteredVersions
      | Some latest \<Rightarrow>
          if latest = [] then filteredVersions
          else if respectLatest config = Some False then filteredVersions
          else if isGreaterThan V fromVersion latest then filteredVersions
          else filter (\<lambda>v. \<not> isGreaterThan V (version v) latest) filteredVersions)"

text \<open>Lines 129-166: the stability rules, then the latest version.\<close>

definition stabilityFilter ::
  "VersioningApi \<Rightarrow> FilterConfig \<Rightarrow> string \<Rightarrow> string option \<Rightarrow> Release list \<Rightarrow> Release list" where
  "stabilityFilter V config fromVersion latestVersion filteredVersions =
     (if truthy_string (followTag config) \<or> ignoreUnstable config = Some False then
        filteredVersions
      else if \<not> isVersionStable V fromVersion then
        filter
          (\<lambda>v. isVersionStable V (version v) \<or>
             (strictEquals (getMajor V (version v)) (getMajor V fromVersion) \<and>
              strictEquals (getMinor V (version v)) (getMinor V fromVersion) \<and>
              strictEquals (getPatch V (version v)) (getPatch V fromVersion)))
          filteredVersions
      else
        filterLatest V config fromVersion latestVersion
          (filter (\<lambda>v. isVersionStable V (version v)) filteredVersions))"

text \<open>Lines 47-127: the list as it stands before the stability rules of line 129.\<close>

definition upToAllowedVersions ::
  "('x, 'sv) Imports \<Rightarrow> VersioningApi \<Rightarrow> regexes \<Rightarrow> FilterConfig \<Rightarrow> string \<Rightarrow> Release list
     \<Rightarrow> ('x thrown + Release list) \<times> regexes" where
  "upToAllowedVersions I V rx config fromVersion versions =
     (case deprecationGuard config fromVersion versions
             (greaterThanCurrent V fromVersion versions) of
        Inl e \<Rightarrow> (Inl e, rx)
      | Inr filteredVersions \<Rightarrow> allowedVersionsFilter I V config rx filteredVersions)"

text \<open>
  The whole function. \<^verbatim>\<open>fromVersion\<close> and \<^verbatim>\<open>latestVersion\<close> may be absent at run
  time (\<open>None\<close>); line 42 resolves the scheme before line 43 tests \<^verbatim>\<open>fromVersion\<close>.
\<close>

definition filterVersions ::
  "('x, 'sv) Imports \<Rightarrow> regexes \<Rightarrow> FilterConfig \<Rightarrow> string option \<Rightarrow> string option \<Rightarrow> Release list
     \<Rightarrow> ('x thrown + Release list) \<times> regexes" where
  "filterVersions I rx config fromVersion latestVersion versions =
     (case allVersioning_get I (versioning config) of
        Inl x \<Rightarrow> (Inl (Propagated x), rx)
      | Inr V \<Rightarrow>
          (case fromVersion of
             None \<Rightarrow> (Inr [], rx)
           | Some current \<Rightarrow>
               if current = [] then (Inr [], rx)
               else
                 (case upToAllowedVersions I V rx config current versions of
                    (Inl e, rx') \<Rightarrow> (Inl e, rx')
                  | (Inr filteredVersions, rx') \<Rightarrow>
                      (Inr (stabilityFilter V config current latestVersion filteredVersions),
                       rx'))))"

section \<open>The allowed-versions strategies as the specification lists them\<close>

text \<open>
  The specification describes lines 71-126 as an ordered list of five strategies, each with
  a condition and a filter; the first strategy whose condition holds is applied, and the
  call fails when none does. The definitions below follow that description; they are
  compared with \<^const>\<open>applyAllowedVersions\<close> further down.
\<close>

datatype strategy = RegexInclude | RegexExclude | NativeRange | GenericFallback | SchemeFallback

definition spec_order :: "strategy list" where
  "spec_order = [RegexInclude, RegexExclude, NativeRange, GenericFallback, SchemeFallback]"

fun spec_applies ::
  "('x, 'sv) Imports \<Rightarrow> VersioningApi \<Rightarrow> FilterConfig \<Rightarrow> string \<Rightarrow> strategy \<Rightarrow> bool" where
  "spec_applies I V config a RegexInclude =
     (length a > 1 \<and> a \<noteq> [] \<and> hd a = CHR ''/'' \<and> last a = CHR ''/'')"
| "spec_applies I V config a RegexExclude =
     (length a > 2 \<and> take 2 a = ''!/'' \<and> last a = CHR ''/'')"
| "spec_applies I V config a NativeRange = isValid V a"
| "spec_applies I V config a GenericFallback =
     (versioning config \<noteq> npmVersioning_id I \<and> truthy_string (semver_validRange I a))"
| "spec_applies I V config a SchemeFallback =
     (versioning config = poetryVersioning_id I \<and> pep440_isValid I a)"

text \<open>The text between the slashes of a wrapped expression.\<close>

fun spec_inner :: "strategy \<Rightarrow> string \<Rightarrow> string" where
  "spec_inner RegexExclude a = butlast (drop 2 a)"
| "spec_inner s a = butlast (drop 1 a)"

fun spec_apply ::
  "('x, 'sv) Imports \<Rightarrow> VersioningApi \<Rightarrow> regexes \<Rightarrow> string \<Rightarrow> Release list \<Rightarrow> strategy
     \<Rightarrow> ('x thrown + Release list) \<times> regexes" where
  "spec_apply I V rx a candidates RegexInclude =
     (case cachedRegEx I rx a (spec_inner RegexInclude a) of
        (Inl e, rx') \<Rightarrow> (Inl e, rx')
      | (Inr r, rx') \<Rightarrow> (Inr (filter (\<lambda>v. test r (version v)) candidates), rx'))"
| "spec_apply I V rx a candidates RegexExclude =
     (case cachedRegEx I rx a (spec_inner RegexExclude a) of
        (Inl e, rx') \<Rightarrow> (Inl e, rx')
      | (Inr r, rx') \<Rightarrow> (Inr (filter (\<lambda>v. \<not> test r (version v)) candidates), rx'))"
| "spec_apply I V rx a candidates NativeRange =
     (Inr (filter (\<lambda>v. matches V (version v) a) candidates), rx)"
| "spec_apply I V rx a candidates GenericFallback =
     (Inr (filter (\<lambda>v. semver_satisfies I (semver_coerce I (version v)) a) candidates), rx)"
| "spec_apply I V rx a candidates SchemeFallback =
     (Inr (filter (\<lambda>v. pep440_matches I (version v) a) candidates), rx)"

definition spec_allowedVersions ::
  "('x, 'sv) Imports \<Rightarrow> VersioningApi \<Rightarrow> FilterConfig \<Rightarrow> regexes \<Rightarrow> string \<Rightarrow> Release list
     \<Rightarrow> ('x thrown + Release list) \<times> regexes" where
  "spec_allowedVersions I V config rx a candidates =
     (case find (spec_applies I V config a) spec_order of
        None \<Rightarrow> (Inl (Thrown (invalidAllowedVersions I a)), rx)
      | Some s \<Rightarrow> spec_apply I V rx a candidates s)"

text \<open>
  The record that line 58 finds for a candidate: the first element of \<^verbatim>\<open>versions\<close>
  with the candidate's version string. \<open>recordDeprecated\<close> is the truthiness of its flag.
\<close>

definition recordDeprecated :: "Release list \<Rightarrow> string \<Rightarrow> bool" where
  "recordDeprecated versions s =
     (case find (\<lambda>release. version release = s) versions of
        None \<Rightarrow> False
      | Some r \<Rightarrow> truthy_bool (isDeprecated r))"

text \<open>
  An invariant of the module-level object \<^verbatim>\<open>regexes\<close>: every entry was compiled by
  \<^verbatim>\<open>regEx\<close> from the text between the slashes of its key. The empty object of line 21
  satisfies it and every call keeps it.
\<close>

definition regexesSound :: "('x, 'sv) Imports \<Rightarrow> regexes \<Rightarrow> bool" where
  "regexesSound I rx =
     (\<forall>k r. rx k = Some r \<longrightarrow>
        (if length k > 1 \<and> startsWith k ''/'' \<and> endsWith k ''/''
         then regEx I (slice k 1 (- 1)) = Inr r
         else length k > 2 \<and> startsWith k ''!/'' \<and> endsWith k ''/'' \<and>
              regEx I (slice k 2 (- 1)) = Inr r))"

section \<open>An example scheme, to run the model on concrete inputs\<close>

text \<open>
  A small scheme in the style of semantic versioning: \<^verbatim>\<open>major.minor.patch\<close>, with an
  optional pre-release tag after a hyphen. A version is stable when it has no tag; the
  numbers are compared first, a tagged version is below the untagged one with the same
  numbers, and two tags are compared character by character. A range is \<^verbatim>\<open><\<close>
  followed by a version.
\<close>

fun splitOn :: "char \<Rightarrow> string \<Rightarrow> string list" where
  "splitOn c [] = [[]]"
| "splitOn c (x # xs) =
     (if x = c then [] # splitOn c xs
      else (case splitOn c xs of [] \<Rightarrow> [[x]] | p # ps \<Rightarrow> (x # p) # ps))"

definition isDigit :: "char \<Rightarrow> bool" where
  "isDigit c = (48 \<le> (of_char c :: nat) \<and> (of_char c :: nat) \<le> 57)"

definition parseNumber :: "string \<Rightarrow> int option" where
  "parseNumber s =
     (if s \<noteq> [] \<and> list_all isDigit s
      then Some (foldl (\<lambda>n c. 10 * n + (int (of_char c) - 48)) 0 s) else None)"

definition releasePart :: "string \<Rightarrow> string" where
  "releasePart s = takeWhile (\<lambda>c. c \<noteq> CHR ''-'') s"

definition tagPart :: "string \<Rightarrow> string" where
  "tagPart s = drop (Suc (length (releasePart s))) s"

definition component :: "nat \<Rightarrow> string \<Rightarrow> int option" where
  "component k s =
     (let parts = splitOn CHR ''.'' (releasePart s)
      in if k < length parts then parseNumber (parts ! k) else None)"

fun lexGreater :: "nat list \<Rightarrow> nat list \<Rightarrow> bool" where
  "lexGreater [] ys = False"
| "lexGreater (x # xs) [] = True"
| "lexGreater (x # xs) (y # ys) = (x > y \<or> (x = y \<and> lexGreater xs ys))"

definition numbers :: "string \<Rightarrow> nat list" where
  "numbers s = map (\<lambda>k. case component k s of None \<Rightarrow> 0 | Some n \<Rightarrow> nat n) [0, 1, 2]"

definition exampleGreater :: "string \<Rightarrow> string \<Rightarrow> bool" where
  "exampleGreater a b =
     (lexGreater (numbers a) (numbers b) \<or>
      (numbers a = numbers b \<and> tagPart b \<noteq> [] \<and>
       (tagPart a = [] \<or> lexGreater (map of_char (tagPart a)) (map of_char (tagPart b)))))"

definition exampleValid :: "string \<Rightarrow> bool" where
  "exampleValid a =
     (case a of
        [] \<Rightarrow> False
      | c # v \<Rightarrow> c = CHR ''<'' \<and> component 0 v \<noteq> None \<and> component 1 v \<noteq> None \<and>
                 component 2 v \<noteq> None)"

text \<open>A part that is not a number reads as \<^verbatim>\<open>NaN\<close>.\<close>

definition exampleNumber :: "nat \<Rightarrow> string \<Rightarrow> number option" where
  "exampleNumber k s = Some (case component k s of None \<Rightarrow> NaN | Some n \<Rightarrow> Number n)"

definition exampleScheme :: VersioningApi where
  "exampleScheme =
     \<lparr> isGreaterThan = exampleGreater,
       isStable = (\<lambda>v. tagPart v = []),
       isValid = exampleValid,
       matches = (\<lambda>v a. exampleGreater (drop 1 a) v),
       getMajor = exampleNumber 0,
       getMinor = exampleNumber 1,
       getPatch = exampleNumber 2 \<rparr>"

text \<open>
  Modelled from the spec: \<^verbatim>\<open>allVersioning.get\<close> is not part of \<^verbatim>\<open>filter.ts\<close>;
  section 6 of the specification says that the lookup fails with a lookup error on a scheme
  name it does not recognise. The lookup of the example imports knows three names and fails
  on any other. The other example imports are small stand-ins: the generic range syntax
  knows \<^verbatim>\<open>*\<close> only; the secondary syntax knows \<^verbatim>\<open>==version\<close>; the regular
  expression compiler accepts a pattern of letters, digits, dots and hyphens, which matches
  the versions that contain it.

  On any other pattern the compiler throws what \<^verbatim>\<open>regEx\<close> of \<^verbatim>\<open>util/regex\<close>, which
  is not part of \<^verbatim>\<open>filter.ts\<close> either, throws on a pattern that does not compile: an
  error with the tag \<^verbatim>\<open>CONFIG_VALIDATION\<close>, the pattern as \<^verbatim>\<open>configFile\<close>, and a
  \<^verbatim>\<open>validationError\<close> that reads \<^verbatim>\<open>Invalid regular expression:\<close> and the pattern.
\<close>

definition invalidRegularExpression :: "string \<Rightarrow> string \<Rightarrow> ErrorObject" where
  "invalidRegularExpression tag pattern =
     \<lparr> message = tag,
       configFile = Some pattern,
       validationError = Some (''Invalid regular expression: '' @ pattern),
       validationMessage = None \<rparr>"

text \<open>
  An outcome of the call is a configuration-validation error when the exception that leaves
  the call, whoever threw it, carries the tag \<^verbatim>\<open>CONFIG_VALIDATION\<close>.
\<close>

definition raisesConfigValidation ::
  "(ErrorObject, 'sv) Imports \<Rightarrow> ErrorObject thrown + Release list \<Rightarrow> bool" where
  "raisesConfigValidation I outcome =
     (case outcome of
        Inl (Propagated e) \<Rightarrow> message e = CONFIG_VALIDATION I
      | Inl (Thrown e) \<Rightarrow> message e = CONFIG_VALIDATION I
      | Inl TypeError \<Rightarrow> False
      | Inr kept \<Rightarrow> False)"

definition plainChar :: "char \<Rightarrow> bool" where
  "plainChar c =
     (isDigit c \<or> c = CHR ''.'' \<or> c = CHR ''-'' \<or>
      (97 \<le> (of_char c :: nat) \<and> (of_char c :: nat) \<le> 122))"

fun contains :: "string \<Rightarrow> string \<Rightarrow> bool" where
  "contains [] p = (p = [])"
| "contains (x # xs) p = (take (length p) (x # xs) = p \<or> contains xs p)"

definition exampleImports :: "(ErrorObject, string) Imports" where
  "exampleImports =
     \<lparr> allVersioning_get =
         (\<lambda>name. if name = ''semver'' \<or> name = ''npm'' \<or> name = ''poetry''
                 then Inr exampleScheme
                 else Inl \<lparr> message = ''unknown versioning'', configFile = None,
                            validationError = None, validationMessage = None \<rparr>),
       regEx =
         (\<lambda>p. if list_all plainChar p then Inr \<lparr> test = (\<lambda>s. contains s p) \<rparr>
              else Inl (invalidRegularExpression ''config-validation'' p)),
       npmVersioning_id = ''npm'',
       poetryVersioning_id = ''poetry'',
       semver_validRange = (\<lambda>a. if a = ''*'' then Some ''*'' else None),
       semver_coerce = (\<lambda>v. if component 0 v = None then None else Some v),
       semver_satisfies = (\<lambda>v a. v \<noteq> None),
       pep440_isValid = (\<lambda>a. take 2 a = ''=='' \<and> length a > 2),
       pep440_matches = (\<lambda>v a. drop 2 a = v),
       CONFIG_VALIDATION = ''config-validation'' \<rparr>"

definition exampleConfig :: FilterConfig where
  "exampleConfig =
     \<lparr> allowedVersions = None, depName = Some ''example'', followTag = None,
       ignoreDeprecated = None, ignoreUnstable = None, respectLatest = None,
       versioning = ''semver'' \<rparr>"

definition release :: "string \<Rightarrow> Release" where
  "release v = \<lparr> version = v, isDeprecated = None \<rparr>"

definition deprecated :: "string \<Rightarrow> Release" where
  "deprecated v = \<lparr> version = v, isDeprecated = Some True \<rparr>"

definition exampleVersions :: "Release list" where
  "exampleVersions =
     [release ''1.0.0'', release ''1.1.0'', release ''2.0.0'', release ''2.1.0-rc.1'']"

section \<open>Every stage only removes elements\<close>

lemma find_version_in:
  assumes "v \<in> set versions"
  shows "\<exists>r. find (\<lambda>release. version release = version v) versions = Some r \<and>
             r \<in> set versions \<and> version r = version v"
proof -
  from assms have "find (\<lambda>release. version release = version v) versions \<noteq> None"
    by (auto simp: find_None_iff)
  then obtain r where r: "find (\<lambda>release. version release = version v) versions = Some r"
    by blast
  then have "r \<in> set versions" "version r = version v"
    by (auto simp: find_Some_iff)
  with r show ?thesis by blast
qed

lemma dropDeprecated_total:
  "set xs \<subseteq> set versions \<Longrightarrow>
   dropDeprecated versions xs =
     Inr (filter (\<lambda>v. \<not> recordDeprecated versions (version v)) xs)"
proof (induction xs)
  case Nil
  show ?case by simp
next
  case (Cons v vs)
  then have "v \<in> set versions" and rest: "set vs \<subseteq> set versions" by auto
  then obtain r where "find (\<lambda>release. version release = version v) versions = Some r"
    using find_version_in by blast
  with Cons.IH [OF rest] show ?case
    by (simp add: recordDeprecated_def)
qed

lemma greaterThanCurrent_subset: "set (greaterThanCurrent V current versions) \<subseteq> set versions"
  by (simp add: greaterThanCurrent_def)

lemma deprecationGuard_total:
  "deprecationGuard config current versions (greaterThanCurrent V current versions) =
     Inr (if truthy_bool (ignoreDeprecated config) \<and>
             find (\<lambda>release. version release = current) versions \<noteq> None \<and>
             \<not> recordDeprecated versions current
          then filter (\<lambda>v. \<not> recordDeprecated versions (version v))
                 (greaterThanCurrent V current versions)
          else greaterThanCurrent V current versions)"
  by (auto simp: deprecationGuard_def Let_def recordDeprecated_def
        dropDeprecated_total [OF greaterThanCurrent_subset] split: option.splits)

lemma deprecationGuard_subseq:
  "deprecationGuard config current versions (greaterThanCurrent V current versions) = Inr ys
     \<Longrightarrow> subseq ys (greaterThanCurrent V current versions)"
  by (auto simp: deprecationGuard_total split: if_splits)

lemma applyAllowedVersions_subseq:
  "applyAllowedVersions I V config rx a xs = (Inr ys, rx') \<Longrightarrow> subseq ys xs"
  by (auto simp: applyAllowedVersions_def split: if_splits prod.splits sum.splits)

lemma allowedVersionsFilter_subseq:
  "allowedVersionsFilter I V config rx xs = (Inr ys, rx') \<Longrightarrow> subseq ys xs"
  by (auto simp: allowedVersionsFilter_def dest: applyAllowedVersions_subseq
        split: option.splits if_splits)

lemma filterLatest_subseq: "subseq (filterLatest V config current latest xs) xs"
  by (simp add: filterLatest_def split: option.splits)

lemma stabilityFilter_subseq: "subseq (stabilityFilter V config current latest xs) xs"
  unfolding stabilityFilter_def
  by (auto intro: subseq_order.trans [OF filterLatest_subseq])

lemma upToAllowedVersions_subseq:
  fixes I :: "('x, 'sv) Imports"
  assumes "upToAllowedVersions I V rx config current versions = (Inr ys, rx')"
  shows "subseq ys (greaterThanCurrent V current versions)"
proof -
  let ?g = "greaterThanCurrent V current versions"
  obtain b where b: "deprecationGuard config current versions ?g = (Inr b :: 'x thrown + _)"
    by (simp add: deprecationGuard_total)
  have "allowedVersionsFilter I V config rx b = (Inr ys, rx')"
    using assms unfolding upToAllowedVersions_def b by simp
  then have "subseq ys b" by (rule allowedVersionsFilter_subseq)
  moreover from b have "subseq b ?g" by (rule deprecationGuard_subseq)
  ultimately show ?thesis by (rule subseq_order.trans)
qed

lemma filterVersions_cases:
  assumes "fst (filterVersions I rx config fromVersion latestVersion versions) = Inr out"
  obtains (empty) V where "allVersioning_get I (versioning config) = Inr V"
      and "\<not> truthy_string fromVersion" and "out = []"
  | (run) V current ys rx' where "allVersioning_get I (versioning config) = Inr V"
      and "fromVersion = Some current" and "current \<noteq> []"
      and "upToAllowedVersions I V rx config current versions = (Inr ys, rx')"
      and "out = stabilityFilter V config current latestVersion ys"
  using assms unfolding filterVersions_def truthy_string_def
  by (auto split: sum.splits option.splits if_splits prod.splits)

lemma filterVersions_run:
  assumes "allVersioning_get I (versioning config) = Inr V" and "current \<noteq> []"
  shows "filterVersions I rx config (Some current) latestVersion versions =
           (case upToAllowedVersions I V rx config current versions of
              (Inl e, rx') \<Rightarrow> (Inl e, rx')
            | (Inr ys, rx') \<Rightarrow> (Inr (stabilityFilter V config current latestVersion ys), rx'))"
  using assms by (simp add: filterVersions_def)

text \<open>
  Claim C1. Whenever \<^verbatim>\<open>filterVersions\<close> returns a list, that list is a subsequence of
  the input \<^verbatim>\<open>versions\<close>: it is obtained by deleting elements, so every element of the
  output is an element of the input (the same record, hence the same version string and the same
  deprecation flag), nothing is added, and the order of the input is kept.
\<close>

theorem filterVersions_subsequence:
  assumes "fst (filterVersions I rx config fromVersion latestVersion versions) = Inr out"
  shows "subseq out versions \<and> set out \<subseteq> set versions \<and>
         (\<forall>r \<in> set out. \<exists>r' \<in> set versions.
            version r' = version r \<and> isDeprecated r' = isDeprecated r)"
proof -
  have sub: "subseq out versions"
    using assms
  proof (cases rule: filterVersions_cases)
    case (empty V)
    then show ?thesis by simp
  next
    case (run V current ys rx')
    have "subseq out ys"
      unfolding run(5) by (rule stabilityFilter_subseq)
    also have "subseq ys (greaterThanCurrent V current versions)"
      using run(4) by (rule upToAllowedVersions_subseq)
    also have "subseq (greaterThanCurrent V current versions) versions"
      by (simp add: greaterThanCurrent_def)
    finally show ?thesis .
  qed
  then have "set out \<subseteq> set versions"
    by (auto dest: list_emb_set)
  with sub show ?thesis by blast
qed

theorem filterVersions_subsequence_witness:
  "fst (filterVersions exampleImports Map.empty exampleConfig (Some ''1.0.0'') (Some ''2.0.0'')
          exampleVersions) = Inr [release ''1.1.0'', release ''2.0.0''] \<and>
   subseq [release ''1.1.0'', release ''2.0.0''] exampleVersions \<and>
   set [release ''1.1.0'', release ''2.0.0''] \<subseteq> set exampleVersions"
proof -
  have run: "fst (filterVersions exampleImports Map.empty exampleConfig (Some ''1.0.0'')
      (Some ''2.0.0'') exampleVersions) = Inr [release ''1.1.0'', release ''2.0.0'']"
    by code_simp
  from filterVersions_subsequence [OF run] run show ?thesis by blast
qed

text \<open>
  Claim C2. With a non-empty reference version, every element of a returned list has a
  version that the scheme's \<^verbatim>\<open>isGreaterThan\<close> puts above the reference version. Hence a
  version string that the scheme does not put above the reference (one it ranks equal to
  it, for instance) is the version of no output element.
\<close>

theorem filterVersions_above_current:
  assumes "allVersioning_get I (versioning config) = Inr V"
    and "current \<noteq> []"
    and "fst (filterVersions I rx config (Some current) latestVersion versions) = Inr out"
  shows "(\<forall>v \<in> set out. isGreaterThan V (version v) current) \<and>
         (\<forall>w. \<not> isGreaterThan V w current \<longrightarrow> w \<notin> version ` set out)"
proof -
  from assms(3) have "subseq out (greaterThanCurrent V current versions)"
  proof (cases rule: filterVersions_cases)
    case (empty W)
    then show ?thesis using assms(2) by (simp add: truthy_string_def)
  next
    case (run W c ys rx')
    with assms(1) have "W = V" "c = current" by simp_all
    with run have "subseq out ys" "subseq ys (greaterThanCurrent V current versions)"
      by (auto intro: stabilityFilter_subseq upToAllowedVersions_subseq)
    then show ?thesis by (rule subseq_order.trans)
  qed
  then have "set out \<subseteq> set (greaterThanCurrent V current versions)"
    by (auto dest: list_emb_set)
  then have "\<forall>v \<in> set out. isGreaterThan V (version v) current"
    by (auto simp: greaterThanCurrent_def)
  then show ?thesis by blast
qed

theorem filterVersions_above_current_witness:
  "allVersioning_get exampleImports (versioning exampleConfig) = Inr exampleScheme \<and>
   ''1.0.0'' \<noteq> [] \<and>
   fst (filterVersions exampleImports Map.empty exampleConfig (Some ''1.0.0'') (Some ''2.0.0'')
          exampleVersions) = Inr [release ''1.1.0'', release ''2.0.0''] \<and>
   isGreaterThan exampleScheme (version (release ''1.1.0'')) ''1.0.0'' \<and>
   isGreaterThan exampleScheme (version (release ''2.0.0'')) ''1.0.0'' \<and>
   \<not> isGreaterThan exampleScheme ''1.0.0'' ''1.0.0'' \<and>
   ''1.0.0'' \<notin> version ` set [release ''1.1.0'', release ''2.0.0'']"
proof -
  have lookup: "allVersioning_get exampleImports (versioning exampleConfig) = Inr exampleScheme"
    by (simp add: exampleImports_def exampleConfig_def)
  have nonempty: "''1.0.0'' \<noteq> []" by simp
  have run: "fst (filterVersions exampleImports Map.empty exampleConfig (Some ''1.0.0'')
      (Some ''2.0.0'') exampleVersions) = Inr [release ''1.1.0'', release ''2.0.0'']"
    by code_simp
  have irrefl: "\<not> isGreaterThan exampleScheme ''1.0.0'' ''1.0.0''"
    by code_simp
  from filterVersions_above_current [OF lookup nonempty run] lookup run irrefl
  show ?thesis by simp
qed

section \<open>An absent reference version\<close>

text \<open>
  Claim C3. For a policy whose versioning scheme the lookup of line 42 resolves, an absent or
  empty reference version makes the call return the empty list at line 44: no error is
  raised, \<^verbatim>\<open>regexes\<close> is left as it was, and the result is the same for every scheme,
  every candidate list, every latest version and every other field of the policy, so no stage
  takes part in it.
\<close>

theorem empty_reference_returns_empty:
  assumes "allVersioning_get I (versioning config) = Inr V"
    and "\<not> truthy_string fromVersion"
  shows "filterVersions I rx config fromVersion latestVersion versions = (Inr [], rx)"
  using assms
  by (auto simp: filterVersions_def truthy_string_def split: option.splits)

theorem empty_reference_returns_empty_witness:
  "allVersioning_get exampleImports (versioning exampleConfig) = Inr exampleScheme \<and>
   \<not> truthy_string None \<and> \<not> truthy_string (Some '''') \<and>
   fst (filterVersions exampleImports Map.empty exampleConfig None (Some ''2.0.0'')
         exampleVersions) = Inr [] \<and>
   fst (filterVersions exampleImports Map.empty exampleConfig (Some '''') (Some ''2.0.0'')
         exampleVersions) = Inr []"
proof -
  have a: "\<not> truthy_string None" and b: "\<not> truthy_string (Some '''')"
    by (simp_all add: truthy_string_def)
  have lookup: "allVersioning_get exampleImports (versioning exampleConfig) = Inr exampleScheme"
    by (simp add: exampleImports_def exampleConfig_def)
  show ?thesis
    using a b lookup
      empty_reference_returns_empty [OF lookup a, of Map.empty "Some ''2.0.0''" exampleVersions]
      empty_reference_returns_empty [OF lookup b, of Map.empty "Some ''2.0.0''" exampleVersions]
    by simp
qed

section \<open>The deprecation guard\<close>

lemma find_distinct_version:
  "distinct (map version versions) \<Longrightarrow> v \<in> set versions \<Longrightarrow>
   find (\<lambda>release. version release = version v) versions = Some v"
  by (induction versions) auto

lemma recordDeprecated_iff:
  "recordDeprecated versions s \<longleftrightarrow>
     (\<exists>r. find (\<lambda>release. version release = s) versions = Some r \<and> truthy_bool (isDeprecated r))"
  by (simp add: recordDeprecated_def split: option.splits)

lemma deprecationGuard_removal:
  assumes "v \<in> set (greaterThanCurrent V current versions)"
  shows "(\<exists>kept.
            deprecationGuard config current versions (greaterThanCurrent V current versions)
              = (Inr kept :: 'x thrown + Release list) \<and>
            (v \<notin> set kept \<longleftrightarrow>
               truthy_bool (ignoreDeprecated config) \<and>
               (\<exists>r. find (\<lambda>release. version release = current) versions = Some r \<and>
                    \<not> truthy_bool (isDeprecated r)) \<and>
               (\<exists>r. find (\<lambda>release. version release = version v) versions = Some r \<and>
                    truthy_bool (isDeprecated r)))) \<and>
         ((\<exists>r. find (\<lambda>release. version release = current) versions = Some r \<and>
               truthy_bool (isDeprecated r)) \<longrightarrow>
            deprecationGuard config current versions (greaterThanCurrent V current versions)
              = (Inr (greaterThanCurrent V current versions) :: 'x thrown + Release list)) \<and>
         (distinct (map version versions) \<longrightarrow>
            find (\<lambda>release. version release = version v) versions = Some v)"
proof (intro conjI impI)
  let ?g = "greaterThanCurrent V current versions"
  let ?on = "truthy_bool (ignoreDeprecated config) \<and>
             find (\<lambda>release. version release = current) versions \<noteq> None \<and>
             \<not> recordDeprecated versions current"
  have ref: "?on \<longleftrightarrow>
      truthy_bool (ignoreDeprecated config) \<and>
      (\<exists>r. find (\<lambda>release. version release = current) versions = Some r \<and>
           \<not> truthy_bool (isDeprecated r))"
    by (auto simp: recordDeprecated_def split: option.splits)
  show "\<exists>kept. deprecationGuard config current versions ?g
            = (Inr kept :: 'x thrown + Release list) \<and>
         (v \<notin> set kept \<longleftrightarrow>
            truthy_bool (ignoreDeprecated config) \<and>
            (\<exists>r. find (\<lambda>release. version release = current) versions = Some r \<and>
                 \<not> truthy_bool (isDeprecated r)) \<and>
            (\<exists>r. find (\<lambda>release. version release = version v) versions = Some r \<and>
                 truthy_bool (isDeprecated r)))"
  proof (cases ?on)
    case True
    then have "deprecationGuard config current versions ?g
        = (Inr (filter (\<lambda>v. \<not> recordDeprecated versions (version v)) ?g)
            :: 'x thrown + Release list)"
      by (simp add: deprecationGuard_total)
    moreover have "v \<notin> set (filter (\<lambda>v. \<not> recordDeprecated versions (version v)) ?g)
        \<longleftrightarrow> recordDeprecated versions (version v)"
      using assms by simp
    ultimately show ?thesis
      using True unfolding ref recordDeprecated_iff by blast
  next
    case False
    then have "(if ?on then filter (\<lambda>v. \<not> recordDeprecated versions (version v)) ?g else ?g) = ?g"
      by (rule if_not_P)
    then have "deprecationGuard config current versions ?g
        = (Inr ?g :: 'x thrown + Release list)"
      by (simp only: deprecationGuard_total)
    then show ?thesis
      using False assms unfolding ref by blast
  qed
next
  assume "\<exists>r. find (\<lambda>release. version release = current) versions = Some r \<and>
              truthy_bool (isDeprecated r)"
  then have "recordDeprecated versions current"
    by (simp add: recordDeprecated_iff)
  then show "deprecationGuard config current versions (greaterThanCurrent V current versions)
      = (Inr (greaterThanCurrent V current versions) :: 'x thrown + Release list)"
    by (simp add: deprecationGuard_total)
next
  assume "distinct (map version versions)"
  moreover from assms have "v \<in> set versions"
    by (simp add: greaterThanCurrent_def)
  ultimately show "find (\<lambda>release. version release = version v) versions = Some v"
    by (rule find_distinct_version)
qed

lemma find_distinct_iff:
  assumes "distinct (map version versions)"
  shows "(\<exists>r. find (\<lambda>release. version release = s) versions = Some r \<and> P r) \<longleftrightarrow>
         (\<exists>r \<in> set versions. version r = s \<and> P r)"
proof
  assume "\<exists>r. find (\<lambda>release. version release = s) versions = Some r \<and> P r"
  then obtain r where r: "find (\<lambda>release. version release = s) versions = Some r" "P r"
    by blast
  then have "r \<in> set versions" "version r = s"
    by (auto simp: find_Some_iff)
  with r(2) show "\<exists>r \<in> set versions. version r = s \<and> P r" by blast
next
  assume "\<exists>r \<in> set versions. version r = s \<and> P r"
  then obtain r where r: "r \<in> set versions" "version r = s" "P r" by blast
  from find_distinct_version [OF assms r(1)] r(2)
  have "find (\<lambda>release. version release = s) versions = Some r" by simp
  with r(3) show "\<exists>r. find (\<lambda>release. version release = s) versions = Some r \<and> P r"
    by blast
qed

text \<open>
  Claim C9. For a resolved scheme, a non-empty reference version and a candidate \<open>v\<close> that
  survived the comparison with the reference version: lines 52-69 produce a list \<open>kept\<close>,
  the call of \<^verbatim>\<open>filterVersions\<close> continues with \<open>kept\<close> (and returns it as it is when
  there is no \<^verbatim>\<open>allowedVersions\<close> and \<^verbatim>\<open>ignoreUnstable\<close> is \<^verbatim>\<open>false\<close>), and
  \<open>v\<close> is missing from \<open>kept\<close> exactly when \<^verbatim>\<open>ignoreDeprecated\<close> is true,
  \<^verbatim>\<open>versions\<close> has a record with the reference version whose flag is not set, and the
  record that \<^verbatim>\<open>versions\<close> has for the version of \<open>v\<close> is deprecated. The record of a
  version is the first one with that version string; when the version strings of
  \<^verbatim>\<open>versions\<close> are distinct it is the only one, and \<open>v\<close> is removed exactly when its own
  flag is set. When the record of the reference version is deprecated, nothing is removed.
\<close>

theorem filterVersions_deprecation_guard:
  fixes I :: "('x, 'sv) Imports"
  assumes "allVersioning_get I (versioning config) = Inr V"
    and "current \<noteq> []"
    and "v \<in> set (greaterThanCurrent V current versions)"
  shows "\<exists>kept.
           deprecationGuard config current versions (greaterThanCurrent V current versions)
             = (Inr kept :: 'x thrown + Release list) \<and>
           subseq kept (greaterThanCurrent V current versions) \<and>
           filterVersions I rx config (Some current) latestVersion versions =
             (case allowedVersionsFilter I V config rx kept of
                (Inl e, rx') \<Rightarrow> (Inl e, rx')
              | (Inr allowed, rx') \<Rightarrow>
                  (Inr (stabilityFilter V config current latestVersion allowed), rx')) \<and>
           (allowedVersions config = None \<and> ignoreUnstable config = Some False \<longrightarrow>
              filterVersions I rx config (Some current) latestVersion versions = (Inr kept, rx)) \<and>
           (v \<notin> set kept \<longleftrightarrow>
              truthy_bool (ignoreDeprecated config) \<and>
              (\<exists>r. find (\<lambda>release. version release = current) versions = Some r \<and>
                   \<not> truthy_bool (isDeprecated r)) \<and>
              (\<exists>r. find (\<lambda>release. version release = version v) versions = Some r \<and>
                   truthy_bool (isDeprecated r))) \<and>
           ((\<exists>r. find (\<lambda>release. version release = current) versions = Some r \<and>
                 truthy_bool (isDeprecated r)) \<longrightarrow>
              kept = greaterThanCurrent V current versions) \<and>
           (distinct (map version versions) \<longrightarrow>
              (v \<notin> set kept \<longleftrightarrow>
                 truthy_bool (ignoreDeprecated config) \<and>
                 (\<exists>r \<in> set versions. version r = current \<and> \<not> truthy_bool (isDeprecated r)) \<and>
                 truthy_bool (isDeprecated v)))"
proof -
  let ?g = "greaterThanCurrent V current versions"
  let ?ref = "\<exists>r. find (\<lambda>release. version release = current) versions = Some r \<and>
                  \<not> truthy_bool (isDeprecated r)"
  let ?own = "\<exists>r. find (\<lambda>release. version release = version v) versions = Some r \<and>
                  truthy_bool (isDeprecated r)"
  from deprecationGuard_removal [OF assms(3), of config]
  obtain kept where
    guard: "deprecationGuard config current versions ?g = (Inr kept :: 'x thrown + Release list)"
    and removed: "v \<notin> set kept \<longleftrightarrow> truthy_bool (ignoreDeprecated config) \<and> ?ref \<and> ?own"
    by blast
  have sub: "subseq kept ?g"
    using guard by (rule deprecationGuard_subseq)
  have up: "upToAllowedVersions I V rx config current versions =
      allowedVersionsFilter I V config rx kept"
    unfolding upToAllowedVersions_def guard by simp
  have run: "filterVersions I rx config (Some current) latestVersion versions =
      (case allowedVersionsFilter I V config rx kept of
         (Inl e, rx') \<Rightarrow> (Inl e, rx')
       | (Inr allowed, rx') \<Rightarrow>
           (Inr (stabilityFilter V config current latestVersion allowed), rx'))"
    unfolding filterVersions_run [OF assms(1,2)] up by (rule refl)
  have plain: "filterVersions I rx config (Some current) latestVersion versions = (Inr kept, rx)"
    if "allowedVersions config = None \<and> ignoreUnstable config = Some False"
    unfolding run using that by (simp add: allowedVersionsFilter_def stabilityFilter_def)
  have same: "kept = ?g"
    if "\<exists>r. find (\<lambda>release. version release = current) versions = Some r \<and>
            truthy_bool (isDeprecated r)"
  proof -
    from that have "recordDeprecated versions current"
      by (simp add: recordDeprecated_iff)
    then have "deprecationGuard config current versions ?g = (Inr ?g :: 'x thrown + Release list)"
      by (simp add: deprecationGuard_total)
    with guard show ?thesis by simp
  qed
  have own: "v \<notin> set kept \<longleftrightarrow>
      truthy_bool (ignoreDeprecated config) \<and>
      (\<exists>r \<in> set versions. version r = current \<and> \<not> truthy_bool (isDeprecated r)) \<and>
      truthy_bool (isDeprecated v)"
    if dist: "distinct (map version versions)"
  proof -
    from assms(3) have "v \<in> set versions"
      by (simp add: greaterThanCurrent_def)
    with dist have "find (\<lambda>release. version release = version v) versions = Some v"
      by (rule find_distinct_version)
    then have "?own \<longleftrightarrow> truthy_bool (isDeprecated v)" by simp
    moreover have "?ref \<longleftrightarrow>
        (\<exists>r \<in> set versions. version r = current \<and> \<not> truthy_bool (isDeprecated r))"
      by (rule find_distinct_iff [OF dist])
    ultimately show ?thesis
      using removed by simp
  qed
  from guard sub run plain removed same own show ?thesis
    by (intro exI [of _ kept] conjI impI)
qed

theorem filterVersions_deprecation_guard_witness:
  "allVersioning_get exampleImports
     (versioning (exampleConfig\<lparr>ignoreDeprecated := Some True, ignoreUnstable := Some False\<rparr>))
     = Inr exampleScheme \<and>
   ''1.0.0'' \<noteq> [] \<and>
   deprecated ''1.1.0'' \<in> set (greaterThanCurrent exampleScheme ''1.0.0''
      [release ''1.0.0'', deprecated ''1.1.0'', release ''2.0.0'']) \<and>
   fst (filterVersions exampleImports Map.empty
          (exampleConfig\<lparr>ignoreDeprecated := Some True, ignoreUnstable := Some False\<rparr>)
          (Some ''1.0.0'') None [release ''1.0.0'', deprecated ''1.1.0'', release ''2.0.0''])
     = Inr [release ''2.0.0''] \<and>
   deprecationGuard
       (exampleConfig\<lparr>ignoreDeprecated := Some True, ignoreUnstable := Some False\<rparr>) ''1.0.0''
       [release ''1.0.0'', deprecated ''1.1.0'', release ''2.0.0'']
       (greaterThanCurrent exampleScheme ''1.0.0''
          [release ''1.0.0'', deprecated ''1.1.0'', release ''2.0.0''])
     = (Inr [release ''2.0.0''] :: ErrorObject thrown + Release list) \<and>
   deprecated ''1.1.0'' \<notin> set [release ''2.0.0''] \<and>
   truthy_bool (ignoreDeprecated
     (exampleConfig\<lparr>ignoreDeprecated := Some True, ignoreUnstable := Some False\<rparr>)) \<and>
   distinct (map version [release ''1.0.0'', deprecated ''1.1.0'', release ''2.0.0'']) \<and>
   truthy_bool (isDeprecated (deprecated ''1.1.0''))"
proof -
  let ?vs = "[release ''1.0.0'', deprecated ''1.1.0'', release ''2.0.0'']"
  let ?c = "exampleConfig\<lparr>ignoreDeprecated := Some True, ignoreUnstable := Some False\<rparr>"
  define R where "R = filterVersions exampleImports Map.empty ?c (Some ''1.0.0'') None ?vs"
  define G where "G = (deprecationGuard ?c ''1.0.0'' ?vs
     (greaterThanCurrent exampleScheme ''1.0.0'' ?vs) :: ErrorObject thrown + Release list)"
  define d where "d = deprecated ''1.1.0''"
  have lookup: "allVersioning_get exampleImports (versioning ?c) = Inr exampleScheme"
    by (simp add: exampleImports_def exampleConfig_def)
  have nonempty: "''1.0.0'' \<noteq> []" by simp
  have mem: "deprecated ''1.1.0'' \<in> set (greaterThanCurrent exampleScheme ''1.0.0'' ?vs)"
    by code_simp
  have run: "fst R = Inr [release ''2.0.0'']"
    unfolding R_def by code_simp
  have opts: "allowedVersions ?c = None \<and> ignoreUnstable ?c = Some False"
    by (simp add: exampleConfig_def)
  have dist: "distinct (map version ?vs)"
    by (simp add: release_def deprecated_def)
  have gone: "d \<notin> set [release ''2.0.0'']"
    unfolding d_def by (simp add: release_def deprecated_def)
  from filterVersions_deprecation_guard [OF lookup nonempty mem, of Map.empty None]
  obtain kept where
    guard: "G = Inr kept"
    and plain: "allowedVersions ?c = None \<and> ignoreUnstable ?c = Some False \<longrightarrow>
      R = (Inr kept, Map.empty)"
    and own: "distinct (map version ?vs) \<longrightarrow>
      (d \<notin> set kept \<longleftrightarrow>
         truthy_bool (ignoreDeprecated ?c) \<and>
         (\<exists>r \<in> set ?vs. version r = ''1.0.0'' \<and> \<not> truthy_bool (isDeprecated r)) \<and>
         truthy_bool (isDeprecated d))"
    unfolding R_def G_def d_def by blast
  from plain opts have "R = (Inr kept, Map.empty)" by (rule mp)
  with run have kept: "kept = [release ''2.0.0'']" by simp
  from own dist gone have flags: "truthy_bool (ignoreDeprecated ?c) \<and> truthy_bool (isDeprecated d)"
    unfolding kept by blast
  from lookup nonempty mem run [unfolded R_def] guard [unfolded kept G_def]
    gone [unfolded d_def] flags [unfolded d_def] dist
  show ?thesis by (intro conjI) (elim conjE, assumption)+
qed

lemma cachedRegEx_not_TypeError: "fst (cachedRegEx I rx k p) \<noteq> Inl TypeError"
  by (simp add: cachedRegEx_def split: option.splits sum.splits)

lemma applyAllowedVersions_not_TypeError:
  "fst (applyAllowedVersions I V config rx a xs) \<noteq> Inl TypeError"
proof -
  have "\<And>k p e rx'. cachedRegEx I rx k p = (Inl e, rx') \<Longrightarrow> e \<noteq> TypeError"
    using cachedRegEx_not_TypeError by (metis fst_conv)
  then show ?thesis
    by (auto simp: applyAllowedVersions_def split: prod.splits sum.splits)
qed

lemma upToAllowedVersions_not_TypeError:
  "fst (upToAllowedVersions I V rx config current versions) \<noteq> Inl TypeError"
  by (simp add: upToAllowedVersions_def deprecationGuard_total allowedVersionsFilter_def
        applyAllowedVersions_not_TypeError split: option.splits)

text \<open>
  Claim C10. Every candidate that survived the comparison with the reference version is an
  element of \<^verbatim>\<open>versions\<close>, so the \<^verbatim>\<open>find\<close> of line 58 returns a record with the
  candidate's version; the read of \<^verbatim>\<open>isDeprecated\<close> at line 61 never meets
  \<^verbatim>\<open>undefined\<close>, lines 52-69 always produce a list, and no call of
  \<^verbatim>\<open>filterVersions\<close> throws a \<^verbatim>\<open>TypeError\<close>.
\<close>

theorem deprecation_lookup_succeeds:
  fixes I :: "('x, 'sv) Imports"
  shows "(\<forall>v \<in> set (greaterThanCurrent V current versions).
            \<exists>r. find (\<lambda>release. version release = version v) versions = Some r \<and>
                r \<in> set versions \<and> version r = version v) \<and>
         (\<exists>kept. dropDeprecated versions (greaterThanCurrent V current versions)
                    = (Inr kept :: 'x thrown + Release list)) \<and>
         (\<exists>kept. deprecationGuard config current versions (greaterThanCurrent V current versions)
                    = (Inr kept :: 'x thrown + Release list)) \<and>
         fst (filterVersions I rx config fromVersion latestVersion versions) \<noteq> Inl TypeError"
proof (intro conjI ballI)
  fix v assume "v \<in> set (greaterThanCurrent V current versions)"
  then have "v \<in> set versions" by (simp add: greaterThanCurrent_def)
  then show "\<exists>r. find (\<lambda>release. version release = version v) versions = Some r \<and>
                r \<in> set versions \<and> version r = version v"
    by (rule find_version_in)
next
  show "\<exists>kept. dropDeprecated versions (greaterThanCurrent V current versions)
                    = (Inr kept :: 'x thrown + Release list)"
    by (simp add: dropDeprecated_total [OF greaterThanCurrent_subset])
next
  show "\<exists>kept. deprecationGuard config current versions (greaterThanCurrent V current versions)
                    = (Inr kept :: 'x thrown + Release list)"
    by (simp add: deprecationGuard_total)
next
  show "fst (filterVersions I rx config fromVersion latestVersion versions) \<noteq> Inl TypeError"
  proof (cases "allVersioning_get I (versioning config)")
    case (Inl x)
    then show ?thesis by (simp add: filterVersions_def)
  next
    case (Inr W)
    show ?thesis
    proof (cases "truthy_string fromVersion")
      case False
      then show ?thesis
        using Inr by (auto simp: filterVersions_def truthy_string_def split: option.splits)
    next
      case True
      then obtain c where c: "fromVersion = Some c" "c \<noteq> []"
        by (auto simp: truthy_string_def split: option.splits)
      show ?thesis
        using upToAllowedVersions_not_TypeError [of I W rx config c versions]
        unfolding c(1) filterVersions_run [OF Inr c(2)]
        by (auto split: prod.splits sum.splits)
    qed
  qed
qed

theorem deprecation_lookup_succeeds_witness:
  "deprecated ''1.1.0'' \<in> set (greaterThanCurrent exampleScheme ''1.0.0''
      [release ''1.0.0'', deprecated ''1.1.0'', release ''2.0.0'']) \<and>
   find (\<lambda>release. version release = version (deprecated ''1.1.0''))
      [release ''1.0.0'', deprecated ''1.1.0'', release ''2.0.0''] = Some (deprecated ''1.1.0'') \<and>
   fst (filterVersions exampleImports Map.empty (exampleConfig\<lparr>ignoreDeprecated := Some True\<rparr>)
          (Some ''1.0.0'') None [release ''1.0.0'', deprecated ''1.1.0'', release ''2.0.0''])
     \<noteq> Inl TypeError \<and>
   fst (filterVersions exampleImports Map.empty (exampleConfig\<lparr>ignoreDeprecated := Some True\<rparr>)
          (Some ''1.0.0'') None [release ''1.0.0'', deprecated ''1.1.0'', release ''2.0.0''])
     = Inr [release ''2.0.0'']"
proof -
  let ?vs = "[release ''1.0.0'', deprecated ''1.1.0'', release ''2.0.0'']"
  have mem: "deprecated ''1.1.0'' \<in> set (greaterThanCurrent exampleScheme ''1.0.0'' ?vs)"
    by code_simp
  have found: "find (\<lambda>release. version release = version (deprecated ''1.1.0'')) ?vs
      = Some (deprecated ''1.1.0'')"
    by (simp add: release_def deprecated_def)
  have run: "fst (filterVersions exampleImports Map.empty
      (exampleConfig\<lparr>ignoreDeprecated := Some True\<rparr>) (Some ''1.0.0'') None ?vs)
        = Inr [release ''2.0.0'']"
    by code_simp
  from deprecation_lookup_succeeds [where I = exampleImports and rx = Map.empty
      and config = "exampleConfig\<lparr>ignoreDeprecated := Some True\<rparr>"
      and fromVersion = "Some ''1.0.0''" and latestVersion = None and versions = ?vs]
  have "fst (filterVersions exampleImports Map.empty
      (exampleConfig\<lparr>ignoreDeprecated := Some True\<rparr>) (Some ''1.0.0'') None ?vs)
        \<noteq> Inl TypeError"
    by blast
  with mem found run show ?thesis by blast
qed

section \<open>The allowed-versions strategies\<close>

lemma startsWith_slash: "startsWith a ''/'' \<longleftrightarrow> a \<noteq> [] \<and> hd a = CHR ''/''"
  by (cases a) (auto simp: startsWith_def)

lemma startsWith_bang_slash: "startsWith a ''!/'' \<longleftrightarrow> take 2 a = ''!/''"
  by (simp add: startsWith_def numeral_2_eq_2)

lemma endsWith_slash: "endsWith a ''/'' \<longleftrightarrow> a \<noteq> [] \<and> last a = CHR ''/''"
proof (cases a rule: rev_cases)
  case Nil
  then show ?thesis by (simp add: endsWith_def)
next
  case (snoc ys y)
  then show ?thesis by (auto simp: endsWith_def)
qed

lemma slice_inner:
  assumes "k < length a"
  shows "slice a (int k) (- 1) = butlast (drop k a)"
proof -
  have lo: "(if int k < 0 then max (int (length a) + int k) 0 else min (int k) (int (length a)))
      = int k"
    using assms by simp
  have hi: "(if (- 1 :: int) < 0 then max (int (length a) + (- 1)) 0 else min (- 1) (int (length a)))
      = int (length a - 1)"
    using assms by (simp add: max_def of_nat_diff)
  have "nat (int (length a - 1) - int k) = length (drop k a) - 1"
    using assms by simp
  then have "slice a (int k) (- 1) = take (length (drop k a) - 1) (drop k a)"
    unfolding slice_def Let_def lo hi by simp
  then show ?thesis by (simp only: butlast_conv_take)
qed

lemma slice_1: "1 < length a \<Longrightarrow> slice a 1 (- 1) = butlast (drop 1 a)"
  using slice_inner [of 1 a] by simp

lemma slice_2: "2 < length a \<Longrightarrow> slice a 2 (- 1) = butlast (drop 2 a)"
  using slice_inner [of 2 a] by simp

lemma spec_allowedVersions_chain:
  "spec_allowedVersions I V config rx a candidates =
     (if spec_applies I V config a RegexInclude then spec_apply I V rx a candidates RegexInclude
      else if spec_applies I V config a RegexExclude then spec_apply I V rx a candidates RegexExclude
      else if spec_applies I V config a NativeRange then spec_apply I V rx a candidates NativeRange
      else if spec_applies I V config a GenericFallback
        then spec_apply I V rx a candidates GenericFallback
      else if spec_applies I V config a SchemeFallback
        then spec_apply I V rx a candidates SchemeFallback
      else (Inl (Thrown (invalidAllowedVersions I a)), rx))"
  by (simp add: spec_allowedVersions_def spec_order_def del: spec_applies.simps spec_apply.simps)

lemma include_cond:
  "(length a > 1 \<and> startsWith a ''/'' \<and> endsWith a ''/'') = spec_applies I V config a RegexInclude"
  by (auto simp: startsWith_slash endsWith_slash)

lemma exclude_cond:
  "(length a > 2 \<and> startsWith a ''!/'' \<and> endsWith a ''/'') = spec_applies I V config a RegexExclude"
  by (auto simp: startsWith_bang_slash endsWith_slash)

lemma include_apply:
  "spec_applies I V config a RegexInclude \<Longrightarrow>
   (case cachedRegEx I rx a (slice a 1 (- 1)) of
      (Inl e, rx') \<Rightarrow> (Inl e, rx')
    | (Inr r, rx') \<Rightarrow> (Inr (filter (\<lambda>v. test r (version v)) candidates), rx'))
   = spec_apply I V rx a candidates RegexInclude"
  by (simp add: slice_1)

lemma exclude_apply:
  "spec_applies I V config a RegexExclude \<Longrightarrow>
   (case cachedRegEx I rx a (slice a 2 (- 1)) of
      (Inl e, rx') \<Rightarrow> (Inl e, rx')
    | (Inr r, rx') \<Rightarrow> (Inr (filter (\<lambda>v. \<not> test r (version v)) candidates), rx'))
   = spec_apply I V rx a candidates RegexExclude"
  by (simp add: slice_2)

lemma applyAllowedVersions_refines:
  "applyAllowedVersions I V config rx a candidates =
     spec_allowedVersions I V config rx a candidates"
proof -
  consider (inc) "spec_applies I V config a RegexInclude"
    | (exc) "\<not> spec_applies I V config a RegexInclude" "spec_applies I V config a RegexExclude"
    | (other) "\<not> spec_applies I V config a RegexInclude" "\<not> spec_applies I V config a RegexExclude"
    by blast
  then show ?thesis
  proof cases
    case inc
    then show ?thesis
      unfolding applyAllowedVersions_def spec_allowedVersions_chain
        include_cond [of a I V config] exclude_cond [of a I V config]
      by (simp only: if_True include_apply)
  next
    case exc
    then show ?thesis
      unfolding applyAllowedVersions_def spec_allowedVersions_chain
        include_cond [of a I V config] exclude_cond [of a I V config]
      by (simp only: if_True if_False exclude_apply)
  next
    case other
    then show ?thesis
      unfolding applyAllowedVersions_def spec_allowedVersions_chain
        include_cond [of a I V config] exclude_cond [of a I V config]
      by (simp del: spec_applies.simps(1,2))
  qed
qed

lemma cachedRegEx_not_Thrown: "fst (cachedRegEx I rx k p) \<noteq> Inl (Thrown err)"
  by (simp add: cachedRegEx_def split: option.splits sum.splits)

lemma spec_apply_not_Thrown: "fst (spec_apply I V rx a candidates s) \<noteq> Inl (Thrown err)"
proof (cases s)
  case RegexInclude
  then show ?thesis
    using cachedRegEx_not_Thrown [of I rx a "spec_inner RegexInclude a" err]
    by (auto split: prod.splits sum.splits)
next
  case RegexExclude
  then show ?thesis
    using cachedRegEx_not_Thrown [of I rx a "spec_inner RegexExclude a" err]
    by (auto split: prod.splits sum.splits)
qed simp_all

lemma no_strategy_iff:
  "(\<forall>s \<in> set spec_order. \<not> spec_applies I V config a s) \<longleftrightarrow>
     find (spec_applies I V config a) spec_order = None"
  by (simp only: find_None_iff) blast

lemma applyAllowedVersions_Thrown_iff:
  "fst (applyAllowedVersions I V config rx a candidates) = Inl (Thrown err) \<longleftrightarrow>
     (\<forall>s \<in> set spec_order. \<not> spec_applies I V config a s) \<and> err = invalidAllowedVersions I a"
proof (cases "find (spec_applies I V config a) spec_order")
  case None
  then show ?thesis
    unfolding applyAllowedVersions_refines spec_allowedVersions_def no_strategy_iff
    by auto
next
  case (Some s)
  then show ?thesis
    unfolding applyAllowedVersions_refines spec_allowedVersions_def no_strategy_iff
    using spec_apply_not_Thrown [of I V rx a candidates s err] by simp
qed

lemma filterVersions_error_iff:
  assumes "allVersioning_get I (versioning config) = Inr V" and "current \<noteq> []"
  shows "fst (filterVersions I rx config (Some current) latestVersion versions) = Inl e \<longleftrightarrow>
         fst (upToAllowedVersions I V rx config current versions) = Inl e"
  unfolding filterVersions_run [OF assms]
  by (auto split: prod.splits sum.splits)

lemma upToAllowedVersions_Thrown_iff:
  fixes I :: "('x, 'sv) Imports"
  assumes "allowedVersions config = Some a" and "a \<noteq> []"
  shows "fst (upToAllowedVersions I V rx config current versions) = Inl (Thrown err) \<longleftrightarrow>
     (\<forall>s \<in> set spec_order. \<not> spec_applies I V config a s) \<and> err = invalidAllowedVersions I a"
proof -
  obtain b where b: "deprecationGuard config current versions
      (greaterThanCurrent V current versions) = (Inr b :: 'x thrown + Release list)"
    by (simp add: deprecationGuard_total)
  have "upToAllowedVersions I V rx config current versions
      = applyAllowedVersions I V config rx a b"
    unfolding upToAllowedVersions_def b allowedVersionsFilter_def using assms by simp
  then show ?thesis
    by (simp only: applyAllowedVersions_Thrown_iff)
qed

lemma quoteChar_plain:
  assumes "c \<noteq> CHR 0x22" and "c \<noteq> CHR 0x5C" and "32 \<le> (of_char c :: nat)"
  shows "quoteChar c = [c]"
proof -
  have ctl: "c \<noteq> d" if "(of_char d :: nat) < 32" for d
    using that assms(3) by auto
  have "c \<noteq> CHR 0x08" by (rule ctl) simp
  moreover have "c \<noteq> CHR 0x09" by (rule ctl) simp
  moreover have "c \<noteq> CHR 0x0A" by (rule ctl) simp
  moreover have "c \<noteq> CHR 0x0C" by (rule ctl) simp
  moreover have "c \<noteq> CHR 0x0D" by (rule ctl) simp
  moreover have "\<not> (of_char c :: nat) < 32" using assms(3) by simp
  ultimately show ?thesis
    unfolding quoteChar_def using assms(1,2) by (simp only: if_False)
qed

lemma JSON_stringify_plain:
  assumes "\<forall>c \<in> set a. c \<noteq> CHR 0x22 \<and> c \<noteq> CHR 0x5C \<and> 32 \<le> (of_char c :: nat)"
  shows "JSON_stringify a = CHR 0x22 # a @ [CHR 0x22]"
proof -
  have "\<forall>c \<in> set a. quoteChar c = [c]"
    using assms quoteChar_plain by blast
  then have "concat (map quoteChar a) = a"
    by (induction a) simp_all
  then show ?thesis by (simp add: JSON_stringify_def)
qed

lemma cachedRegEx_Propagated_iff:
  "fst (cachedRegEx I rx k p) = Inl (Propagated x) \<longleftrightarrow> rx k = None \<and> regEx I p = Inl x"
  by (auto simp: cachedRegEx_def split: option.splits sum.splits)

lemma spec_apply_Propagated_iff:
  "fst (spec_apply I V rx a candidates s) = Inl (Propagated x) \<longleftrightarrow>
     (s = RegexInclude \<or> s = RegexExclude) \<and> rx a = None \<and> regEx I (spec_inner s a) = Inl x"
proof (cases s)
  case RegexInclude
  then show ?thesis
    using cachedRegEx_Propagated_iff [of I rx a "spec_inner RegexInclude a" x]
    by (cases "cachedRegEx I rx a (spec_inner RegexInclude a)")
      (auto split: sum.splits)
next
  case RegexExclude
  then show ?thesis
    using cachedRegEx_Propagated_iff [of I rx a "spec_inner RegexExclude a" x]
    by (cases "cachedRegEx I rx a (spec_inner RegexExclude a)")
      (auto split: sum.splits)
qed simp_all

lemma applyAllowedVersions_Propagated_iff:
  "fst (applyAllowedVersions I V config rx a candidates) = Inl (Propagated x) \<longleftrightarrow>
     rx a = None \<and>
     (spec_applies I V config a RegexInclude \<and> regEx I (spec_inner RegexInclude a) = Inl x \<or>
      \<not> spec_applies I V config a RegexInclude \<and> spec_applies I V config a RegexExclude \<and>
        regEx I (spec_inner RegexExclude a) = Inl x)"
proof -
  consider (inc) "spec_applies I V config a RegexInclude"
    | (exc) "\<not> spec_applies I V config a RegexInclude" "spec_applies I V config a RegexExclude"
    | (other) "\<not> spec_applies I V config a RegexInclude" "\<not> spec_applies I V config a RegexExclude"
    by blast
  then show ?thesis
  proof cases
    case inc
    then have "applyAllowedVersions I V config rx a candidates =
        spec_apply I V rx a candidates RegexInclude"
      unfolding applyAllowedVersions_refines spec_allowedVersions_chain by (simp only: if_True)
    with inc show ?thesis
      by (simp only: spec_apply_Propagated_iff) blast
  next
    case exc
    then have "applyAllowedVersions I V config rx a candidates =
        spec_apply I V rx a candidates RegexExclude"
      unfolding applyAllowedVersions_refines spec_allowedVersions_chain
      by (simp only: if_True if_False)
    with exc show ?thesis
      by (simp only: spec_apply_Propagated_iff) blast
  next
    case other
    then have "fst (applyAllowedVersions I V config rx a candidates) \<noteq> Inl (Propagated x)"
      unfolding applyAllowedVersions_refines spec_allowedVersions_chain
      by (simp del: spec_applies.simps(1,2))
    with other show ?thesis by blast
  qed
qed

lemma upToAllowedVersions_Propagated_iff:
  fixes I :: "('x, 'sv) Imports"
  assumes "allowedVersions config = Some a" and "a \<noteq> []"
  shows "fst (upToAllowedVersions I V rx config current versions) = Inl (Propagated x) \<longleftrightarrow>
     rx a = None \<and>
     (spec_applies I V config a RegexInclude \<and> regEx I (spec_inner RegexInclude a) = Inl x \<or>
      \<not> spec_applies I V config a RegexInclude \<and> spec_applies I V config a RegexExclude \<and>
        regEx I (spec_inner RegexExclude a) = Inl x)"
proof -
  obtain b where b: "deprecationGuard config current versions
      (greaterThanCurrent V current versions) = (Inr b :: 'x thrown + Release list)"
    by (simp add: deprecationGuard_total)
  have "upToAllowedVersions I V rx config current versions
      = applyAllowedVersions I V config rx a b"
    unfolding upToAllowedVersions_def b allowedVersionsFilter_def using assms by simp
  then show ?thesis
    by (simp only: applyAllowedVersions_Propagated_iff)
qed

text \<open>
  Claim C4, amended. With a resolved scheme, a non-empty reference version and a non-empty
  \<^verbatim>\<open>allowedVersions\<close> text \<open>a\<close>, the call throws the error built at lines 119-125
  exactly when none of the five strategies applies to \<open>a\<close>. That error carries the tag
  \<^verbatim>\<open>CONFIG_VALIDATION\<close>, names the field in \<^verbatim>\<open>validationError\<close>, and its
  \<^verbatim>\<open>validationMessage\<close> ends with \<^verbatim>\<open>JSON.stringify(allowedVersions)\<close>, which is the
  text itself between double quotes when it has no character that JSON escapes. The only other
  exception of such a call is the one that \<^verbatim>\<open>regEx\<close> throws: it leaves the call, as it
  was thrown, exactly when a regular expression strategy applies, \<^verbatim>\<open>regexes\<close> has no
  entry for \<open>a\<close>, and the text between the slashes does not compile. After the witness, the
  call is run on \<^verbatim>\<open>/(/\<close>: the regex-include strategy applies, and the error of
  \<^verbatim>\<open>regEx\<close> carries the tag \<^verbatim>\<open>CONFIG_VALIDATION\<close> but neither names
  \<^verbatim>\<open>allowedVersions\<close> nor quotes the expression.
\<close>

theorem invalid_allowedVersions_error:
  assumes "allVersioning_get I (versioning config) = Inr V"
    and "current \<noteq> []"
    and "allowedVersions config = Some a"
    and "a \<noteq> []"
  shows "((\<exists>err. fst (filterVersions I rx config (Some current) latestVersion versions)
                   = Inl (Thrown err)) \<longleftrightarrow>
          (\<forall>s \<in> set spec_order. \<not> spec_applies I V config a s)) \<and>
         (\<forall>err. fst (filterVersions I rx config (Some current) latestVersion versions)
                   = Inl (Thrown err) \<longrightarrow>
            message err = CONFIG_VALIDATION I \<and>
            configFile err = Some ''config'' \<and>
            validationError err = Some ''Invalid `allowedVersions`'' \<and>
            validationMessage err =
              Some (''The following allowedVersions does not parse as a valid version or range: ''
                      @ JSON_stringify a)) \<and>
         ((\<forall>c \<in> set a. c \<noteq> CHR 0x22 \<and> c \<noteq> CHR 0x5C \<and> 32 \<le> (of_char c :: nat)) \<longrightarrow>
            JSON_stringify a = CHR 0x22 # a @ [CHR 0x22]) \<and>
         (\<forall>x. fst (filterVersions I rx config (Some current) latestVersion versions)
                 = Inl (Propagated x) \<longleftrightarrow>
              rx a = None \<and>
              (spec_applies I V config a RegexInclude \<and>
                 regEx I (spec_inner RegexInclude a) = Inl x \<or>
               \<not> spec_applies I V config a RegexInclude \<and>
                 spec_applies I V config a RegexExclude \<and>
                 regEx I (spec_inner RegexExclude a) = Inl x)) \<and>
         fst (filterVersions I rx config (Some current) latestVersion versions) \<noteq> Inl TypeError"
proof -
  have thrown: "fst (filterVersions I rx config (Some current) latestVersion versions)
        = Inl (Thrown err) \<longleftrightarrow>
      (\<forall>s \<in> set spec_order. \<not> spec_applies I V config a s) \<and> err = invalidAllowedVersions I a"
    for err
    unfolding filterVersions_error_iff [OF assms(1,2)]
    by (rule upToAllowedVersions_Thrown_iff [OF assms(3,4)])
  have fields: "message (invalidAllowedVersions I a) = CONFIG_VALIDATION I \<and>
      configFile (invalidAllowedVersions I a) = Some ''config'' \<and>
      validationError (invalidAllowedVersions I a) = Some ''Invalid `allowedVersions`'' \<and>
      validationMessage (invalidAllowedVersions I a) =
        Some (''The following allowedVersions does not parse as a valid version or range: ''
                @ JSON_stringify a)"
    by (simp add: invalidAllowedVersions_def)
  have iff: "(\<exists>err. fst (filterVersions I rx config (Some current) latestVersion versions)
        = Inl (Thrown err)) \<longleftrightarrow> (\<forall>s \<in> set spec_order. \<not> spec_applies I V config a s)"
    unfolding thrown by simp
  have content: "\<forall>err. fst (filterVersions I rx config (Some current) latestVersion versions)
        = Inl (Thrown err) \<longrightarrow>
      message err = CONFIG_VALIDATION I \<and> configFile err = Some ''config'' \<and>
      validationError err = Some ''Invalid `allowedVersions`'' \<and>
      validationMessage err =
        Some (''The following allowedVersions does not parse as a valid version or range: ''
                @ JSON_stringify a)"
    unfolding thrown using fields by simp
  have quoted: "(\<forall>c \<in> set a. c \<noteq> CHR 0x22 \<and> c \<noteq> CHR 0x5C \<and> 32 \<le> (of_char c :: nat)) \<longrightarrow>
      JSON_stringify a = CHR 0x22 # a @ [CHR 0x22]"
    using JSON_stringify_plain [of a] by (rule impI)
  have propagated: "\<forall>x. fst (filterVersions I rx config (Some current) latestVersion versions)
        = Inl (Propagated x) \<longleftrightarrow>
      rx a = None \<and>
      (spec_applies I V config a RegexInclude \<and> regEx I (spec_inner RegexInclude a) = Inl x \<or>
       \<not> spec_applies I V config a RegexInclude \<and> spec_applies I V config a RegexExclude \<and>
         regEx I (spec_inner RegexExclude a) = Inl x)"
    unfolding filterVersions_error_iff [OF assms(1,2)]
    by (rule allI) (rule upToAllowedVersions_Propagated_iff [OF assms(3,4)])
  have no_type_error:
    "fst (filterVersions I rx config (Some current) latestVersion versions) \<noteq> Inl TypeError"
    unfolding filterVersions_error_iff [OF assms(1,2)]
    by (rule upToAllowedVersions_not_TypeError)
  from iff content quoted propagated no_type_error show ?thesis by (intro conjI)
qed

theorem invalid_allowedVersions_error_witness:
  "allVersioning_get exampleImports
      (versioning (exampleConfig\<lparr>allowedVersions := Some ''not-a-range!!''\<rparr>)) = Inr exampleScheme \<and>
   ''1.0.0'' \<noteq> [] \<and>
   allowedVersions (exampleConfig\<lparr>allowedVersions := Some ''not-a-range!!''\<rparr>)
     = Some ''not-a-range!!'' \<and>
   ''not-a-range!!'' \<noteq> [] \<and>
   fst (filterVersions exampleImports Map.empty
          (exampleConfig\<lparr>allowedVersions := Some ''not-a-range!!''\<rparr>)
          (Some ''1.0.0'') (Some ''2.0.0'') exampleVersions)
     = Inl (Thrown
         \<lparr> message = ''config-validation'', configFile = Some ''config'',
           validationError = Some ''Invalid `allowedVersions`'',
           validationMessage =
             Some (''The following allowedVersions does not parse as a valid version or range: ''
                     @ [CHR 0x22] @ ''not-a-range!!'' @ [CHR 0x22]) \<rparr>) \<and>
   find (spec_applies exampleImports exampleScheme
          (exampleConfig\<lparr>allowedVersions := Some ''not-a-range!!''\<rparr>) ''not-a-range!!'')
     spec_order = None"
proof -
  let ?c = "exampleConfig\<lparr>allowedVersions := Some ''not-a-range!!''\<rparr>"
  define R where "R = fst (filterVersions exampleImports Map.empty ?c (Some ''1.0.0'')
     (Some ''2.0.0'') exampleVersions)"
  define E where "E = \<lparr> message = ''config-validation'', configFile = Some ''config'',
     validationError = Some ''Invalid `allowedVersions`'',
     validationMessage =
       Some (''The following allowedVersions does not parse as a valid version or range: ''
               @ [CHR 0x22] @ ''not-a-range!!'' @ [CHR 0x22]) \<rparr>"
  define N where "N \<longleftrightarrow> (\<forall>s \<in> set spec_order.
     \<not> spec_applies exampleImports exampleScheme ?c ''not-a-range!!'' s)"
  have lookup: "allVersioning_get exampleImports (versioning ?c) = Inr exampleScheme"
    by (simp add: exampleImports_def exampleConfig_def)
  have nonempty: "''1.0.0'' \<noteq> []" by simp
  have allowed: "allowedVersions ?c = Some ''not-a-range!!''" by simp
  have expr: "''not-a-range!!'' \<noteq> []" by simp
  have run: "R = Inl (Thrown E)"
    unfolding R_def E_def by code_simp
  have "(\<exists>err. R = Inl (Thrown err)) \<longleftrightarrow> N"
    unfolding R_def N_def
    using invalid_allowedVersions_error [OF lookup nonempty allowed expr,
      of Map.empty "Some ''2.0.0''" exampleVersions]
    by (rule conjunct1)
  with run have N by blast
  then have none: "find (spec_applies exampleImports exampleScheme ?c ''not-a-range!!'') spec_order
      = None"
    unfolding N_def by (simp only: no_strategy_iff)
  from lookup nonempty allowed expr run [unfolded R_def E_def] none
  show ?thesis by (intro conjI)
qed

theorem invalid_allowedVersions_counterexample:
  "spec_applies exampleImports exampleScheme
     (exampleConfig\<lparr>allowedVersions := Some ''/(/''\<rparr>) ''/(/'' RegexInclude \<and>
   fst (filterVersions exampleImports Map.empty (exampleConfig\<lparr>allowedVersions := Some ''/(/''\<rparr>)
          (Some ''1.0.0'') (Some ''2.0.0'') exampleVersions)
     = Inl (Propagated
         \<lparr> message = ''config-validation'', configFile = Some ''('',
           validationError = Some ''Invalid regular expression: ('',
           validationMessage = None \<rparr>) \<and>
   raisesConfigValidation exampleImports
     (fst (filterVersions exampleImports Map.empty
             (exampleConfig\<lparr>allowedVersions := Some ''/(/''\<rparr>)
             (Some ''1.0.0'') (Some ''2.0.0'') exampleVersions))"
  by code_simp

lemma regexesSound_empty: "regexesSound I Map.empty"
  by (simp add: regexesSound_def)

lemma cachedRegEx_sound:
  assumes "regexesSound I rx"
    and "if length k > 1 \<and> startsWith k ''/'' \<and> endsWith k ''/''
         then p = slice k 1 (- 1)
         else length k > 2 \<and> startsWith k ''!/'' \<and> endsWith k ''/'' \<and> p = slice k 2 (- 1)"
  shows "regexesSound I (snd (cachedRegEx I rx k p))"
proof (cases "rx k")
  case (Some r)
  with assms(1) show ?thesis by (simp add: cachedRegEx_def)
next
  case None
  show ?thesis
  proof (cases "regEx I p")
    case (Inl x)
    with None assms(1) show ?thesis by (simp add: cachedRegEx_def)
  next
    case (Inr r)
    with None have "snd (cachedRegEx I rx k p) = rx(k \<mapsto> r)"
      by (simp add: cachedRegEx_def)
    moreover have "regexesSound I (rx(k \<mapsto> r))"
      unfolding regexesSound_def
    proof (intro allI impI)
      fix k' r' assume h: "(rx(k \<mapsto> r)) k' = Some r'"
      show "if length k' > 1 \<and> startsWith k' ''/'' \<and> endsWith k' ''/''
            then regEx I (slice k' 1 (- 1)) = Inr r'
            else length k' > 2 \<and> startsWith k' ''!/'' \<and> endsWith k' ''/'' \<and>
                 regEx I (slice k' 2 (- 1)) = Inr r'"
      proof (cases "k' = k")
        case True
        with h have "r' = r" by simp
        with True Inr assms(2) show ?thesis by (auto split: if_splits)
      next
        case False
        with h have "rx k' = Some r'" by simp
        with assms(1) show ?thesis unfolding regexesSound_def by blast
      qed
    qed
    ultimately show ?thesis by simp
  qed
qed

lemma applyAllowedVersions_sound:
  assumes "regexesSound I rx"
  shows "regexesSound I (snd (applyAllowedVersions I V config rx a candidates))"
proof -
  let ?inc = "length a > 1 \<and> startsWith a ''/'' \<and> endsWith a ''/''"
  let ?exc = "length a > 2 \<and> startsWith a ''!/'' \<and> endsWith a ''/''"
  consider (inc) ?inc | (exc) "\<not> ?inc" ?exc | (other) "\<not> ?inc" "\<not> ?exc" by blast
  then show ?thesis
  proof cases
    case inc
    then have "regexesSound I (snd (cachedRegEx I rx a (slice a 1 (- 1))))"
      by (intro cachedRegEx_sound [OF assms]) simp
    moreover obtain res rx' where c: "cachedRegEx I rx a (slice a 1 (- 1)) = (res, rx')"
      by (cases "cachedRegEx I rx a (slice a 1 (- 1))")
    ultimately have "regexesSound I rx'" by simp
    with inc c show ?thesis
      by (cases res) (simp_all add: applyAllowedVersions_def)
  next
    case exc
    then have "regexesSound I (snd (cachedRegEx I rx a (slice a 2 (- 1))))"
      by (intro cachedRegEx_sound [OF assms]) simp
    moreover obtain res rx' where c: "cachedRegEx I rx a (slice a 2 (- 1)) = (res, rx')"
      by (cases "cachedRegEx I rx a (slice a 2 (- 1))")
    ultimately have "regexesSound I rx'" by simp
    with exc c show ?thesis
      by (cases res) (simp_all add: applyAllowedVersions_def)
  next
    case other
    then have "\<not> spec_applies I V config a RegexInclude" "\<not> spec_applies I V config a RegexExclude"
      by (simp_all only: include_cond [of a I V config] exclude_cond [of a I V config]
            not_False_eq_True)
    with assms show ?thesis
      unfolding applyAllowedVersions_refines spec_allowedVersions_chain
      by (simp del: spec_applies.simps(1,2))
  qed
qed

lemma filterVersions_sound:
  assumes "regexesSound I rx"
  shows "regexesSound I (snd (filterVersions I rx config fromVersion latestVersion versions))"
proof -
  have up: "regexesSound I (snd (upToAllowedVersions I V rx config c versions))" for V c
    using assms applyAllowedVersions_sound [OF assms]
    by (simp add: upToAllowedVersions_def deprecationGuard_total allowedVersionsFilter_def
          split: option.splits)
  show ?thesis
  proof (cases "allVersioning_get I (versioning config)")
    case (Inl x)
    with assms show ?thesis by (simp add: filterVersions_def)
  next
    case (Inr W)
    show ?thesis
    proof (cases "truthy_string fromVersion")
      case False
      with assms Inr show ?thesis
        by (auto simp: filterVersions_def truthy_string_def split: option.splits)
    next
      case True
      then obtain c where c: "fromVersion = Some c" "c \<noteq> []"
        by (auto simp: truthy_string_def split: option.splits)
      show ?thesis
        using up [of W c] unfolding c(1) filterVersions_run [OF Inr c(2)]
        by (auto split: prod.splits sum.splits)
    qed
  qed
qed

lemma cachedRegEx_include_compiled:
  assumes "regexesSound I rx" and "spec_applies I V config a RegexInclude"
  shows "fst (cachedRegEx I rx a (butlast (drop 1 a))) =
           (case regEx I (butlast (drop 1 a)) of
              Inl x \<Rightarrow> Inl (Propagated x)
            | Inr r \<Rightarrow> Inr r)"
proof (cases "rx a")
  case None
  then show ?thesis by (simp add: cachedRegEx_def split: sum.splits)
next
  case (Some r)
  from assms(2) have "length a > 1 \<and> startsWith a ''/'' \<and> endsWith a ''/''"
    using include_cond [of a I V config] by blast
  with assms(1) Some have "regEx I (slice a 1 (- 1)) = Inr r"
    unfolding regexesSound_def by (auto split: if_splits)
  moreover from assms(2) have "slice a 1 (- 1) = butlast (drop 1 a)"
    by (simp add: slice_1)
  ultimately show ?thesis
    using Some by (simp add: cachedRegEx_def)
qed

text \<open>
  Claim C5. For a resolved scheme, a non-empty reference version and a non-empty
  \<^verbatim>\<open>allowedVersions\<close> text, let \<open>candidates\<close> be the list that lines 47-69 leave. The
  call of \<^verbatim>\<open>filterVersions\<close> then does, at lines 71-126, what the first applicable strategy
  of the list regex-include, regex-exclude, native range, generic fallback, scheme fallback
  does to \<open>candidates\<close>, and nothing of a later one: the list handed to the stability rules,
  the exception and the state of \<^verbatim>\<open>regexes\<close> are those of that one strategy. In
  particular a text wrapped in slashes that the scheme also accepts as a range is treated as a
  regular expression; when \<^verbatim>\<open>regexes\<close> holds only compiled patterns, the call returns the
  stability rules applied to the candidates that the expression compiled from the text between
  the slashes matches.
\<close>

theorem filterVersions_first_strategy:
  fixes I :: "('x, 'sv) Imports"
  assumes "allVersioning_get I (versioning config) = Inr V"
    and "current \<noteq> []"
    and "allowedVersions config = Some a"
    and "a \<noteq> []"
  shows "\<exists>candidates.
           deprecationGuard config current versions (greaterThanCurrent V current versions)
             = (Inr candidates :: 'x thrown + Release list) \<and>
           upToAllowedVersions I V rx config current versions =
             (case find (spec_applies I V config a) spec_order of
                None \<Rightarrow> (Inl (Thrown (invalidAllowedVersions I a)), rx)
              | Some s \<Rightarrow> spec_apply I V rx a candidates s) \<and>
           filterVersions I rx config (Some current) latestVersion versions =
             (case (case find (spec_applies I V config a) spec_order of
                      None \<Rightarrow> (Inl (Thrown (invalidAllowedVersions I a)), rx)
                    | Some s \<Rightarrow> spec_apply I V rx a candidates s) of
                (Inl e, rx') \<Rightarrow> (Inl e, rx')
              | (Inr allowed, rx') \<Rightarrow>
                  (Inr (stabilityFilter V config current latestVersion allowed), rx')) \<and>
           (spec_applies I V config a RegexInclude \<and> isValid V a \<longrightarrow>
              upToAllowedVersions I V rx config current versions =
                spec_apply I V rx a candidates RegexInclude) \<and>
           (spec_applies I V config a RegexInclude \<and> isValid V a \<and> regexesSound I rx \<longrightarrow>
              fst (filterVersions I rx config (Some current) latestVersion versions) =
                (case regEx I (butlast (drop 1 a)) of
                   Inl x \<Rightarrow> Inl (Propagated x)
                 | Inr r \<Rightarrow>
                     Inr (stabilityFilter V config current latestVersion
                            (filter (\<lambda>v. test r (version v)) candidates))))"
proof -
  obtain candidates where guard:
    "deprecationGuard config current versions (greaterThanCurrent V current versions)
       = (Inr candidates :: 'x thrown + Release list)"
    by (simp add: deprecationGuard_total)
  have up: "upToAllowedVersions I V rx config current versions =
      spec_allowedVersions I V config rx a candidates"
    unfolding upToAllowedVersions_def guard allowedVersionsFilter_def
    using assms(3,4) by (simp add: applyAllowedVersions_refines)
  have run: "filterVersions I rx config (Some current) latestVersion versions =
      (case spec_allowedVersions I V config rx a candidates of
         (Inl e, rx') \<Rightarrow> (Inl e, rx')
       | (Inr allowed, rx') \<Rightarrow>
           (Inr (stabilityFilter V config current latestVersion allowed), rx'))"
    unfolding filterVersions_run [OF assms(1,2)] up by (rule refl)
  have first: "upToAllowedVersions I V rx config current versions =
      spec_apply I V rx a candidates RegexInclude"
    if "spec_applies I V config a RegexInclude \<and> isValid V a"
    unfolding up spec_allowedVersions_chain using that by (simp only: if_True)
  have compiled: "fst (filterVersions I rx config (Some current) latestVersion versions) =
      (case regEx I (butlast (drop 1 a)) of
         Inl x \<Rightarrow> Inl (Propagated x)
       | Inr r \<Rightarrow>
           Inr (stabilityFilter V config current latestVersion
                  (filter (\<lambda>v. test r (version v)) candidates)))"
    if h: "spec_applies I V config a RegexInclude \<and> isValid V a \<and> regexesSound I rx"
  proof -
    from h have inc: "spec_applies I V config a RegexInclude" and sound: "regexesSound I rx"
      by blast+
    have "spec_allowedVersions I V config rx a candidates =
        spec_apply I V rx a candidates RegexInclude"
      unfolding spec_allowedVersions_chain using inc by (simp only: if_True)
    then show ?thesis
      using cachedRegEx_include_compiled [OF sound inc]
      unfolding run
      by (auto split: sum.splits prod.splits)
  qed
  from guard up run first compiled show ?thesis
    unfolding spec_allowedVersions_def
    by (intro exI [of _ candidates] conjI impI)
qed

theorem filterVersions_first_strategy_witness:
  "allVersioning_get
     (exampleImports\<lparr>allVersioning_get :=
        \<lambda>name. Inr (exampleScheme\<lparr>isValid := \<lambda>a. True, matches := \<lambda>v a. False\<rparr>)\<rparr>)
     (versioning (exampleConfig\<lparr>allowedVersions := Some ''/1.1/''\<rparr>))
     = Inr (exampleScheme\<lparr>isValid := \<lambda>a. True, matches := \<lambda>v a. False\<rparr>) \<and>
   ''1.0.0'' \<noteq> [] \<and>
   allowedVersions (exampleConfig\<lparr>allowedVersions := Some ''/1.1/''\<rparr>) = Some ''/1.1/'' \<and>
   ''/1.1/'' \<noteq> [] \<and>
   spec_applies
     (exampleImports\<lparr>allVersioning_get :=
        \<lambda>name. Inr (exampleScheme\<lparr>isValid := \<lambda>a. True, matches := \<lambda>v a. False\<rparr>)\<rparr>)
     (exampleScheme\<lparr>isValid := \<lambda>a. True, matches := \<lambda>v a. False\<rparr>)
     (exampleConfig\<lparr>allowedVersions := Some ''/1.1/''\<rparr>) ''/1.1/'' RegexInclude \<and>
   isValid (exampleScheme\<lparr>isValid := \<lambda>a. True, matches := \<lambda>v a. False\<rparr>) ''/1.1/'' \<and>
   regexesSound
     (exampleImports\<lparr>allVersioning_get :=
        \<lambda>name. Inr (exampleScheme\<lparr>isValid := \<lambda>a. True, matches := \<lambda>v a. False\<rparr>)\<rparr>)
     Map.empty \<and>
   regEx
     (exampleImports\<lparr>allVersioning_get :=
        \<lambda>name. Inr (exampleScheme\<lparr>isValid := \<lambda>a. True, matches := \<lambda>v a. False\<rparr>)\<rparr>)
     (butlast (drop 1 ''/1.1/'')) = Inr \<lparr> test = (\<lambda>s. contains s ''1.1'') \<rparr> \<and>
   deprecationGuard (exampleConfig\<lparr>allowedVersions := Some ''/1.1/''\<rparr>) ''1.0.0''
       exampleVersions
       (greaterThanCurrent (exampleScheme\<lparr>isValid := \<lambda>a. True, matches := \<lambda>v a. False\<rparr>)
          ''1.0.0'' exampleVersions)
     = (Inr [release ''1.1.0'', release ''2.0.0'', release ''2.1.0-rc.1'']
          :: ErrorObject thrown + Release list) \<and>
   fst (filterVersions
          (exampleImports\<lparr>allVersioning_get :=
             \<lambda>name. Inr (exampleScheme\<lparr>isValid := \<lambda>a. True, matches := \<lambda>v a. False\<rparr>)\<rparr>)
          Map.empty (exampleConfig\<lparr>allowedVersions := Some ''/1.1/''\<rparr>)
          (Some ''1.0.0'') (Some ''2.0.0'') exampleVersions)
     = Inr (stabilityFilter (exampleScheme\<lparr>isValid := \<lambda>a. True, matches := \<lambda>v a. False\<rparr>)
              (exampleConfig\<lparr>allowedVersions := Some ''/1.1/''\<rparr>) ''1.0.0'' (Some ''2.0.0'')
              (filter (\<lambda>v. contains (version v) ''1.1'')
                 [release ''1.1.0'', release ''2.0.0'', release ''2.1.0-rc.1''])) \<and>
   fst (filterVersions
          (exampleImports\<lparr>allVersioning_get :=
             \<lambda>name. Inr (exampleScheme\<lparr>isValid := \<lambda>a. True, matches := \<lambda>v a. False\<rparr>)\<rparr>)
          Map.empty (exampleConfig\<lparr>allowedVersions := Some ''/1.1/''\<rparr>)
          (Some ''1.0.0'') (Some ''2.0.0'') exampleVersions)
     = Inr [release ''1.1.0'']"
proof -
  define V where "V = exampleScheme\<lparr>isValid := \<lambda>a. True, matches := \<lambda>v a. False\<rparr>"
  define I where "I = exampleImports\<lparr>allVersioning_get := \<lambda>name. Inr V\<rparr>"
  define c where "c = exampleConfig\<lparr>allowedVersions := Some ''/1.1/''\<rparr>"
  define cs where "cs = [release ''1.1.0'', release ''2.0.0'', release ''2.1.0-rc.1'']"
  define R where "R = fst (filterVersions I Map.empty c (Some ''1.0.0'') (Some ''2.0.0'')
     exampleVersions)"
  define G where "G = (deprecationGuard c ''1.0.0'' exampleVersions
     (greaterThanCurrent V ''1.0.0'' exampleVersions) :: ErrorObject thrown + Release list)"
  have lookup: "allVersioning_get I (versioning c) = Inr V"
    by (simp add: I_def)
  have nonempty: "''1.0.0'' \<noteq> []" by simp
  have allowed: "allowedVersions c = Some ''/1.1/''" by (simp add: c_def)
  have expr: "''/1.1/'' \<noteq> []" by simp
  have inc: "spec_applies I V c ''/1.1/'' RegexInclude" by simp
  have valid: "isValid V ''/1.1/''" by (simp add: V_def)
  have sound: "regexesSound I Map.empty" by (rule regexesSound_empty)
  have compile: "regEx I (butlast (drop 1 ''/1.1/'')) = Inr \<lparr> test = (\<lambda>s. contains s ''1.1'') \<rparr>"
    by (simp add: I_def exampleImports_def plainChar_def isDigit_def)
  have guard: "G = Inr cs"
    unfolding G_def cs_def V_def c_def by code_simp
  have run: "R = Inr [release ''1.1.0'']"
    unfolding R_def I_def V_def c_def by code_simp
  from filterVersions_first_strategy [OF lookup nonempty allowed expr,
      of exampleVersions Map.empty "Some ''2.0.0''"]
  obtain candidates where
    g: "G = Inr candidates"
    and compiled: "spec_applies I V c ''/1.1/'' RegexInclude \<and> isValid V ''/1.1/'' \<and>
        regexesSound I Map.empty \<longrightarrow>
      R = (case regEx I (butlast (drop 1 ''/1.1/'')) of
             Inl x \<Rightarrow> Inl (Propagated x)
           | Inr r \<Rightarrow>
               Inr (stabilityFilter V c ''1.0.0'' (Some ''2.0.0'')
                      (filter (\<lambda>v. test r (version v)) candidates)))"
    unfolding G_def R_def by blast
  from g guard have "candidates = cs" by simp
  with compiled inc valid sound
  have by_regex: "R = Inr (stabilityFilter V c ''1.0.0'' (Some ''2.0.0'')
      (filter (\<lambda>v. contains (version v) ''1.1'') cs))"
    unfolding compile by simp
  from lookup nonempty allowed expr inc valid sound compile guard by_regex run
  show ?thesis
    unfolding R_def G_def cs_def c_def I_def V_def
    by (intro conjI)
qed

section \<open>Stability and the latest version\<close>

text \<open>
  Claim C8. With a resolved scheme and a non-empty reference version, if
  \<^verbatim>\<open>followTag\<close> is set or \<^verbatim>\<open>ignoreUnstable\<close> is \<^verbatim>\<open>false\<close>, the call returns what
  lines 47-127 produced, unchanged, for every latest version and every value of
  \<^verbatim>\<open>respectLatest\<close>.
\<close>

theorem bypass_returns_allowed_result:
  assumes "allVersioning_get I (versioning config) = Inr V"
    and "current \<noteq> []"
    and "truthy_string (followTag config) \<or> ignoreUnstable config = Some False"
  shows "filterVersions I rx config (Some current) latestVersion versions =
           upToAllowedVersions I V rx config current versions"
  using assms(3)
  by (auto simp: filterVersions_run [OF assms(1,2)] stabilityFilter_def
        split: prod.splits sum.splits)

theorem bypass_returns_allowed_result_witness:
  "allVersioning_get exampleImports (versioning (exampleConfig\<lparr>ignoreUnstable := Some False\<rparr>))
     = Inr exampleScheme \<and>
   ''1.0.0'' \<noteq> [] \<and>
   ignoreUnstable (exampleConfig\<lparr>ignoreUnstable := Some False\<rparr>) = Some False \<and>
   fst (filterVersions exampleImports Map.empty (exampleConfig\<lparr>ignoreUnstable := Some False\<rparr>)
          (Some ''1.0.0'') (Some ''1.1.0'') exampleVersions)
     = Inr [release ''1.1.0'', release ''2.0.0'', release ''2.1.0-rc.1'']"
proof -
  let ?c = "exampleConfig\<lparr>ignoreUnstable := Some False\<rparr>"
  have lookup: "allVersioning_get exampleImports (versioning ?c) = Inr exampleScheme"
    by (simp add: exampleImports_def exampleConfig_def)
  have nonempty: "''1.0.0'' \<noteq> []" by simp
  have opt: "truthy_string (followTag ?c) \<or> ignoreUnstable ?c = Some False" by simp
  have before: "fst (upToAllowedVersions exampleImports exampleScheme Map.empty ?c ''1.0.0''
      exampleVersions) = Inr [release ''1.1.0'', release ''2.0.0'', release ''2.1.0-rc.1'']"
    by code_simp
  show ?thesis
    using bypass_returns_allowed_result [OF lookup nonempty opt, of Map.empty "Some ''1.1.0''"
        exampleVersions] lookup before
    by simp
qed

lemma subseq_set: "subseq xs ys \<Longrightarrow> set xs \<subseteq> set ys"
  by (auto dest: list_emb_set)

lemma subset_all: "A \<subseteq> B \<Longrightarrow> \<forall>x \<in> B. P x \<Longrightarrow> \<forall>x \<in> A. P x"
  by blast

lemma isVersionStable_iff: "isVersionStable V v = isStable V v"
  by (simp add: isVersionStable_def)

lemma filterVersions_stability:
  assumes "allVersioning_get I (versioning config) = Inr V"
    and "current \<noteq> []"
    and "upToAllowedVersions I V rx config current versions = (Inr candidates, rx')"
  shows "filterVersions I rx config (Some current) latestVersion versions =
           (Inr (stabilityFilter V config current latestVersion candidates), rx')"
  unfolding filterVersions_run [OF assms(1,2)] assms(3) by simp

lemma strictEquals_iff: "strictEquals a b \<longleftrightarrow> a = b \<and> b \<noteq> Some NaN"
  by (induction a b rule: strictEquals.induct) auto

text \<open>
  Claim C6. Let the list before line 129 be \<open>candidates\<close>, and let neither
  \<^verbatim>\<open>followTag\<close> be set nor \<^verbatim>\<open>ignoreUnstable\<close> be \<^verbatim>\<open>false\<close>. If the reference
  version is not stable, the call returns the candidates that are stable or whose major,
  minor and patch numbers each equal, by \<^verbatim>\<open>===\<close>, those of the reference version,
  whatever the latest version is. The three comparisons hold exactly when the two triples are
  the same and no number of the reference version is \<^verbatim>\<open>NaN\<close>. If the reference version
  is stable, the unstable candidates are removed and the rules of the latest version are
  applied to what remains, so every element returned is stable.
\<close>

theorem stability_substage:
  assumes "allVersioning_get I (versioning config) = Inr V"
    and "current \<noteq> []"
    and "upToAllowedVersions I V rx config current versions = (Inr candidates, rx')"
    and "\<not> (truthy_string (followTag config) \<or> ignoreUnstable config = Some False)"
  shows "(\<not> isStable V current \<longrightarrow>
            filterVersions I rx config (Some current) latestVersion versions =
              (Inr (filter
                 (\<lambda>v. isStable V (version v) \<or>
                    (strictEquals (getMajor V (version v)) (getMajor V current) \<and>
                     strictEquals (getMinor V (version v)) (getMinor V current) \<and>
                     strictEquals (getPatch V (version v)) (getPatch V current)))
                 candidates), rx')) \<and>
         (\<forall>v. strictEquals (getMajor V (version v)) (getMajor V current) \<and>
              strictEquals (getMinor V (version v)) (getMinor V current) \<and>
              strictEquals (getPatch V (version v)) (getPatch V current) \<longleftrightarrow>
              (getMajor V (version v), getMinor V (version v), getPatch V (version v)) =
                (getMajor V current, getMinor V current, getPatch V current) \<and>
              getMajor V current \<noteq> Some NaN \<and> getMinor V current \<noteq> Some NaN \<and>
              getPatch V current \<noteq> Some NaN) \<and>
         (isStable V current \<longrightarrow>
            filterVersions I rx config (Some current) latestVersion versions =
              (Inr (filterLatest V config current latestVersion
                 (filter (\<lambda>v. isStable V (version v)) candidates)), rx') \<and>
            (\<forall>v \<in> set (filterLatest V config current latestVersion
                 (filter (\<lambda>v. isStable V (version v)) candidates)). isStable V (version v)))"
proof -
  let ?stable = "filter (\<lambda>v. isStable V (version v)) candidates"
  have run: "filterVersions I rx config (Some current) latestVersion versions =
      (Inr (stabilityFilter V config current latestVersion candidates), rx')"
    by (rule filterVersions_stability [OF assms(1,2,3)])
  have unstable: "stabilityFilter V config current latestVersion candidates =
      filter
        (\<lambda>v. isStable V (version v) \<or>
           (strictEquals (getMajor V (version v)) (getMajor V current) \<and>
            strictEquals (getMinor V (version v)) (getMinor V current) \<and>
            strictEquals (getPatch V (version v)) (getPatch V current)))
        candidates"
    if "\<not> isStable V current"
    unfolding stabilityFilter_def isVersionStable_iff
    by (simp only: assms(4) that if_False if_True not_False_eq_True)
  have triple: "\<forall>v. strictEquals (getMajor V (version v)) (getMajor V current) \<and>
      strictEquals (getMinor V (version v)) (getMinor V current) \<and>
      strictEquals (getPatch V (version v)) (getPatch V current) \<longleftrightarrow>
      (getMajor V (version v), getMinor V (version v), getPatch V (version v)) =
        (getMajor V current, getMinor V current, getPatch V current) \<and>
      getMajor V current \<noteq> Some NaN \<and> getMinor V current \<noteq> Some NaN \<and>
      getPatch V current \<noteq> Some NaN"
    unfolding strictEquals_iff by auto
  have stable: "stabilityFilter V config current latestVersion candidates =
      filterLatest V config current latestVersion ?stable"
    if "isStable V current"
    unfolding stabilityFilter_def isVersionStable_iff
    by (simp only: assms(4) that if_False not_True_eq_False)
  have "set (filterLatest V config current latestVersion ?stable) \<subseteq> set ?stable"
    by (rule subseq_set [OF filterLatest_subseq])
  moreover have "\<forall>v \<in> set ?stable. isStable V (version v)"
    by simp
  ultimately have all_stable:
    "\<forall>v \<in> set (filterLatest V config current latestVersion ?stable). isStable V (version v)"
    by (rule subset_all)
  show ?thesis
  proof (intro conjI impI)
    assume h: "\<not> isStable V current"
    show "filterVersions I rx config (Some current) latestVersion versions =
        (Inr (filter
           (\<lambda>v. isStable V (version v) \<or>
              (strictEquals (getMajor V (version v)) (getMajor V current) \<and>
               strictEquals (getMinor V (version v)) (getMinor V current) \<and>
               strictEquals (getPatch V (version v)) (getPatch V current)))
           candidates), rx')"
      unfolding run unstable [OF h] by (rule refl)
  next
    show "\<forall>v. strictEquals (getMajor V (version v)) (getMajor V current) \<and>
        strictEquals (getMinor V (version v)) (getMinor V current) \<and>
        strictEquals (getPatch V (version v)) (getPatch V current) \<longleftrightarrow>
        (getMajor V (version v), getMinor V (version v), getPatch V (version v)) =
          (getMajor V current, getMinor V current, getPatch V current) \<and>
        getMajor V current \<noteq> Some NaN \<and> getMinor V current \<noteq> Some NaN \<and>
        getPatch V current \<noteq> Some NaN"
      by (rule triple)
  next
    assume h: "isStable V current"
    show "filterVersions I rx config (Some current) latestVersion versions =
        (Inr (filterLatest V config current latestVersion ?stable), rx')"
      unfolding run stable [OF h] by (rule refl)
  next
    show "\<forall>v \<in> set (filterLatest V config current latestVersion ?stable).
        isStable V (version v)"
      by (rule all_stable)
  qed
qed

theorem stability_substage_witness:
  "allVersioning_get exampleImports (versioning exampleConfig) = Inr exampleScheme \<and>
   ''1.2.0-beta.1'' \<noteq> [] \<and>
   fst (upToAllowedVersions exampleImports exampleScheme Map.empty exampleConfig ''1.2.0-beta.1''
          [release ''1.2.0-beta.2'', release ''1.2.0'', release ''1.3.0-beta.1''])
     = Inr [release ''1.2.0-beta.2'', release ''1.2.0'', release ''1.3.0-beta.1''] \<and>
   \<not> (truthy_string (followTag exampleConfig) \<or> ignoreUnstable exampleConfig = Some False) \<and>
   \<not> isStable exampleScheme ''1.2.0-beta.1'' \<and>
   fst (filterVersions exampleImports Map.empty exampleConfig (Some ''1.2.0-beta.1'')
          (Some ''1.2.0-beta.1'')
          [release ''1.2.0-beta.2'', release ''1.2.0'', release ''1.3.0-beta.1''])
     = Inr [release ''1.2.0-beta.2'', release ''1.2.0''] \<and>
   \<not> isStable exampleScheme ''x-alpha'' \<and>
   \<not> isStable exampleScheme ''x-beta'' \<and>
   isGreaterThan exampleScheme ''x-beta'' ''x-alpha'' \<and>
   getMajor exampleScheme ''x-alpha'' = Some NaN \<and>
   getMajor exampleScheme ''x-beta'' = Some NaN \<and>
   fst (filterVersions exampleImports Map.empty exampleConfig (Some ''x-alpha'') None
          [release ''x-beta'']) = Inr []"
proof -
  let ?vs = "[release ''1.2.0-beta.2'', release ''1.2.0'', release ''1.3.0-beta.1'']"
  define rx' where
    "rx' = snd (upToAllowedVersions exampleImports exampleScheme Map.empty exampleConfig
       ''1.2.0-beta.1'' ?vs)"
  have lookup: "allVersioning_get exampleImports (versioning exampleConfig) = Inr exampleScheme"
    by (simp add: exampleImports_def exampleConfig_def)
  have nonempty: "''1.2.0-beta.1'' \<noteq> []" by simp
  have before: "fst (upToAllowedVersions exampleImports exampleScheme Map.empty exampleConfig
      ''1.2.0-beta.1'' ?vs) = Inr ?vs"
    by code_simp
  then have up: "upToAllowedVersions exampleImports exampleScheme Map.empty exampleConfig
      ''1.2.0-beta.1'' ?vs = (Inr ?vs, rx')"
    unfolding rx'_def by (simp add: prod_eq_iff)
  have opt: "\<not> (truthy_string (followTag exampleConfig) \<or> ignoreUnstable exampleConfig = Some False)"
    by (simp add: exampleConfig_def truthy_string_def)
  have unstable: "\<not> isStable exampleScheme ''1.2.0-beta.1''"
    by code_simp
  have kept: "filter
      (\<lambda>v. isStable exampleScheme (version v) \<or>
         (strictEquals (getMajor exampleScheme (version v))
            (getMajor exampleScheme ''1.2.0-beta.1'') \<and>
          strictEquals (getMinor exampleScheme (version v))
            (getMinor exampleScheme ''1.2.0-beta.1'') \<and>
          strictEquals (getPatch exampleScheme (version v))
            (getPatch exampleScheme ''1.2.0-beta.1''))) ?vs
      = [release ''1.2.0-beta.2'', release ''1.2.0'']"
    by code_simp
  have result: "fst (filterVersions exampleImports Map.empty exampleConfig (Some ''1.2.0-beta.1'')
      (Some ''1.2.0-beta.1'') ?vs) = Inr [release ''1.2.0-beta.2'', release ''1.2.0'']"
    using mp [OF stability_substage [OF lookup nonempty up opt, of "Some ''1.2.0-beta.1''",
        THEN conjunct1] unstable]
    unfolding kept by simp
  have nan: "\<not> isStable exampleScheme ''x-alpha'' \<and>
      \<not> isStable exampleScheme ''x-beta'' \<and>
      isGreaterThan exampleScheme ''x-beta'' ''x-alpha'' \<and>
      getMajor exampleScheme ''x-alpha'' = Some NaN \<and>
      getMajor exampleScheme ''x-beta'' = Some NaN \<and>
      fst (filterVersions exampleImports Map.empty exampleConfig (Some ''x-alpha'') None
             [release ''x-beta'']) = Inr []"
    by code_simp
  from lookup nonempty before opt unstable result nan show ?thesis
    by (intro conjI) (elim conjE, assumption)+
qed

text \<open>
  Claim C7. In the setting of C6 with a stable reference version, a non-empty latest version
  and \<^verbatim>\<open>respectLatest\<close> not \<^verbatim>\<open>false\<close>: when the reference version is greater than the
  latest version, all stable candidates are returned; otherwise a stable candidate is
  removed exactly when its version is greater than the latest version, so a candidate whose
  version the scheme does not put above the latest version (the latest version itself, for a
  scheme in which no version is greater than itself) is kept.
\<close>

theorem latest_ceiling:
  assumes "allVersioning_get I (versioning config) = Inr V"
    and "current \<noteq> []"
    and "upToAllowedVersions I V rx config current versions = (Inr candidates, rx')"
    and "\<not> (truthy_string (followTag config) \<or> ignoreUnstable config = Some False)"
    and "isStable V current"
    and "latest \<noteq> []"
    and "respectLatest config \<noteq> Some False"
  shows "(isGreaterThan V current latest \<longrightarrow>
            filterVersions I rx config (Some current) (Some latest) versions =
              (Inr (filter (\<lambda>v. isStable V (version v)) candidates), rx')) \<and>
         (\<not> isGreaterThan V current latest \<longrightarrow>
            filterVersions I rx config (Some current) (Some latest) versions =
              (Inr (filter (\<lambda>v. \<not> isGreaterThan V (version v) latest)
                 (filter (\<lambda>v. isStable V (version v)) candidates)), rx') \<and>
            (\<forall>v \<in> set candidates. isStable V (version v) \<longrightarrow>
               (v \<in> set (filter (\<lambda>v. \<not> isGreaterThan V (version v) latest)
                          (filter (\<lambda>v. isStable V (version v)) candidates))
                \<longleftrightarrow> \<not> isGreaterThan V (version v) latest)) \<and>
            (\<not> isGreaterThan V latest latest \<longrightarrow>
               (\<forall>v \<in> set candidates. isStable V (version v) \<and> version v = latest \<longrightarrow>
                  v \<in> set (filter (\<lambda>v. \<not> isGreaterThan V (version v) latest)
                            (filter (\<lambda>v. isStable V (version v)) candidates)))))"
proof -
  let ?stable = "filter (\<lambda>v. isStable V (version v)) candidates"
  have ceiling: "filterLatest V config current (Some latest) xs =
      (if isGreaterThan V current latest then xs
       else filter (\<lambda>v. \<not> isGreaterThan V (version v) latest) xs)" for xs
    using assms(6,7) by (simp add: filterLatest_def)
  have "stabilityFilter V config current (Some latest) candidates =
      filterLatest V config current (Some latest) ?stable"
    unfolding stabilityFilter_def isVersionStable_iff
    by (simp only: assms(4,5) if_False not_True_eq_False)
  then have run: "filterVersions I rx config (Some current) (Some latest) versions =
      (Inr (filterLatest V config current (Some latest) ?stable), rx')"
    by (simp only: filterVersions_stability [OF assms(1,2,3)])
  have ahead: "filterVersions I rx config (Some current) (Some latest) versions =
      (Inr ?stable, rx')" if "isGreaterThan V current latest"
    unfolding run ceiling using that by (simp only: if_True)
  have behind: "filterVersions I rx config (Some current) (Some latest) versions =
      (Inr (filter (\<lambda>v. \<not> isGreaterThan V (version v) latest) ?stable), rx')"
    if "\<not> isGreaterThan V current latest"
    unfolding run ceiling using that by (simp only: if_False)
  have removed: "\<forall>v \<in> set candidates. isStable V (version v) \<longrightarrow>
      (v \<in> set (filter (\<lambda>v. \<not> isGreaterThan V (version v) latest) ?stable)
         \<longleftrightarrow> \<not> isGreaterThan V (version v) latest)"
    by (simp del: filter_filter)
  have equal: "\<forall>v \<in> set candidates. isStable V (version v) \<and> version v = latest \<longrightarrow>
      v \<in> set (filter (\<lambda>v. \<not> isGreaterThan V (version v) latest) ?stable)"
    if "\<not> isGreaterThan V latest latest"
    using that by auto
  show ?thesis
  proof (intro conjI impI)
    assume "isGreaterThan V current latest"
    then show "filterVersions I rx config (Some current) (Some latest) versions =
        (Inr ?stable, rx')"
      by (rule ahead)
  next
    assume "\<not> isGreaterThan V current latest"
    then show "filterVersions I rx config (Some current) (Some latest) versions =
        (Inr (filter (\<lambda>v. \<not> isGreaterThan V (version v) latest) ?stable), rx')"
      by (rule behind)
  next
    show "\<forall>v \<in> set candidates. isStable V (version v) \<longrightarrow>
        (v \<in> set (filter (\<lambda>v. \<not> isGreaterThan V (version v) latest) ?stable)
           \<longleftrightarrow> \<not> isGreaterThan V (version v) latest)"
      by (rule removed)
  next
    assume "\<not> isGreaterThan V latest latest"
    then show "\<forall>v \<in> set candidates. isStable V (version v) \<and> version v = latest \<longrightarrow>
        v \<in> set (filter (\<lambda>v. \<not> isGreaterThan V (version v) latest) ?stable)"
      by (rule equal)
  qed
qed

theorem latest_ceiling_witness:
  "allVersioning_get exampleImports (versioning exampleConfig) = Inr exampleScheme \<and>
   ''1.0.0'' \<noteq> [] \<and>
   fst (upToAllowedVersions exampleImports exampleScheme Map.empty exampleConfig ''1.0.0''
          (exampleVersions @ [release ''3.0.0'']))
     = Inr [release ''1.1.0'', release ''2.0.0'', release ''2.1.0-rc.1'', release ''3.0.0''] \<and>
   \<not> (truthy_string (followTag exampleConfig) \<or> ignoreUnstable exampleConfig = Some False) \<and>
   isStable exampleScheme ''1.0.0'' \<and>
   ''2.0.0'' \<noteq> [] \<and>
   respectLatest exampleConfig \<noteq> Some False \<and>
   \<not> isGreaterThan exampleScheme ''1.0.0'' ''2.0.0'' \<and>
   fst (filterVersions exampleImports Map.empty exampleConfig (Some ''1.0.0'') (Some ''2.0.0'')
          (exampleVersions @ [release ''3.0.0'']))
     = Inr [release ''1.1.0'', release ''2.0.0'']"
proof -
  let ?vs = "exampleVersions @ [release ''3.0.0'']"
  let ?cs = "[release ''1.1.0'', release ''2.0.0'', release ''2.1.0-rc.1'', release ''3.0.0'']"
  define rx' where
    "rx' = snd (upToAllowedVersions exampleImports exampleScheme Map.empty exampleConfig
       ''1.0.0'' ?vs)"
  have lookup: "allVersioning_get exampleImports (versioning exampleConfig) = Inr exampleScheme"
    by (simp add: exampleImports_def exampleConfig_def)
  have nonempty: "''1.0.0'' \<noteq> []" by simp
  have before: "fst (upToAllowedVersions exampleImports exampleScheme Map.empty exampleConfig
      ''1.0.0'' ?vs) = Inr ?cs"
    by code_simp
  then have up: "upToAllowedVersions exampleImports exampleScheme Map.empty exampleConfig
      ''1.0.0'' ?vs = (Inr ?cs, rx')"
    unfolding rx'_def by (simp add: prod_eq_iff)
  have opt: "\<not> (truthy_string (followTag exampleConfig) \<or> ignoreUnstable exampleConfig = Some False)"
    by (simp add: exampleConfig_def truthy_string_def)
  have stable: "isStable exampleScheme ''1.0.0''" by code_simp
  have latest: "''2.0.0'' \<noteq> []" by simp
  have respect: "respectLatest exampleConfig \<noteq> Some False"
    by (simp add: exampleConfig_def)
  have behind: "\<not> isGreaterThan exampleScheme ''1.0.0'' ''2.0.0''" by code_simp
  have kept: "filter (\<lambda>v. \<not> isGreaterThan exampleScheme (version v) ''2.0.0'')
      (filter (\<lambda>v. isStable exampleScheme (version v)) ?cs)
        = [release ''1.1.0'', release ''2.0.0'']"
    by code_simp
  have "fst (filterVersions exampleImports Map.empty exampleConfig (Some ''1.0.0'')
      (Some ''2.0.0'') ?vs) = Inr [release ''1.1.0'', release ''2.0.0'']"
    using latest_ceiling [OF lookup nonempty up opt stable latest respect] behind
    unfolding kept by simp
  with lookup nonempty before opt stable latest respect behind show ?thesis by (intro conjI)
qed

end
